theory Spec2Isabelle
  imports Complex_Main
begin

section \<open>JavaScript values the services build\<close>

text \<open>
  Strings are lists of 8-bit characters, read as code units below 256.
  An exception is a value: the left summand of a sum type.
\<close>

datatype exn = TypeError | SyntaxError | Error string | PersistenceError

text \<open>\<^verbatim>\<open>String.prototype.split\<close> with a one-character separator: never an empty list.\<close>

fun splitOn :: "char \<Rightarrow> string \<Rightarrow> string list" where
  "splitOn sep [] = [[]]"
| "splitOn sep (c # cs) =
     (if c = sep then [] # splitOn sep cs
      else (case splitOn sep cs of [] \<Rightarrow> [[c]] | w # ws \<Rightarrow> (c # w) # ws))"

definition isSpace :: "char \<Rightarrow> bool" where
  "isSpace c \<longleftrightarrow> c \<in> set [CHR 0x09, CHR 0x0A, CHR 0x0B, CHR 0x0C, CHR 0x0D, CHR 0x20, CHR 0xA0]"

text \<open>\<^verbatim>\<open>String.prototype.trim\<close>: white space is stripped at both ends.\<close>

definition trim :: "string \<Rightarrow> string" where
  "trim s = rev (dropWhile isSpace (rev (dropWhile isSpace s)))"

definition startsWith :: "string \<Rightarrow> string \<Rightarrow> bool" where
  "startsWith s p \<longleftrightarrow> take (length p) s = p"

text \<open>
  A plain object is an association list of its own properties, in insertion order.
  Every plain object inherits the properties of \<^verbatim>\<open>Object.prototype\<close>: reading one of
  these names on an object that has no own property of that name yields a function
  (or, for \<^verbatim>\<open>__proto__\<close>, the prototype itself), which is truthy.
\<close>

definition objectPrototypeKeys :: "string list" where
  "objectPrototypeKeys =
     [''constructor'', ''__defineGetter__'', ''__defineSetter__'', ''hasOwnProperty'',
      ''__lookupGetter__'', ''__lookupSetter__'', ''isPrototypeOf'', ''propertyIsEnumerable'',
      ''toString'', ''valueOf'', ''__proto__'', ''toLocaleString'']"

text \<open>
  The values a selection object holds: \<^verbatim>\<open>true\<close>, a nested \<^verbatim>\<open>{ select: {...} }\<close>,
  or a value read from the prototype (truthy, with no \<^verbatim>\<open>select\<close> property).
\<close>

datatype sel = STrue | SInherited | SSelect "(string \<times> sel) list"

type_synonym selection = "(string \<times> sel) list"

fun ownSet :: "(string \<times> 'v) list \<Rightarrow> string \<Rightarrow> 'v \<Rightarrow> (string \<times> 'v) list" where
  "ownSet [] k v = [(k, v)]"
| "ownSet ((k', v') # ps) k v = (if k' = k then (k, v) # ps else (k', v') # ownSet ps k v)"

text \<open>
  \<^verbatim>\<open>obj[k] = v\<close>. Assigning to \<^verbatim>\<open>__proto__\<close> runs the inherited setter, which
  ignores a primitive and leaves the object unchanged when given its present prototype;
  no own property is created.
\<close>

definition setProp :: "(string \<times> 'v) list \<Rightarrow> string \<Rightarrow> 'v \<Rightarrow> (string \<times> 'v) list" where
  "setProp obj k v = (if k = ''__proto__'' then obj else ownSet obj k v)"

text \<open>\<^verbatim>\<open>obj[k]\<close> on a selection object; \<open>None\<close> is \<^verbatim>\<open>undefined\<close>.\<close>

definition getProp :: "selection \<Rightarrow> string \<Rightarrow> sel option" where
  "getProp obj k =
     (if k = ''__proto__'' then Some SInherited
      else case map_of obj k of
        Some v \<Rightarrow> Some v
      | None \<Rightarrow> if k \<in> set objectPrototypeKeys then Some SInherited else None)"

section \<open>Query projection builder\<close>

text \<open>
  The loop over \<^verbatim>\<open>children\<close> and the final assignment, run on \<^verbatim>\<open>current\<close>:
  \<^verbatim>\<open>current[c] = current[c] || { select: {} }; current = current[c].select\<close> for every
  child but the last, then \<^verbatim>\<open>current[last] = true\<close>. When \<^verbatim>\<open>current[c]\<close> is truthy
  but no selection node, \<^verbatim>\<open>.select\<close> is \<^verbatim>\<open>undefined\<close> and the next access through it
  throws a TypeError. The result is \<^verbatim>\<open>current\<close> as the mutation leaves it.
\<close>

fun assignPath :: "selection \<Rightarrow> string list \<Rightarrow> exn + selection" where
  "assignPath current [] = Inr current"
| "assignPath current [c] = Inr (setProp current c STrue)"
| "assignPath current (c # cs) =
     (case getProp current c of
        None \<Rightarrow> map_sum id (\<lambda>s. setProp current c (SSelect s)) (assignPath [] cs)
      | Some (SSelect s0) \<Rightarrow> map_sum id (\<lambda>s. setProp current c (SSelect s)) (assignPath s0 cs)
      | Some _ \<Rightarrow> Inl TypeError)"

text \<open>The body of the \<^verbatim>\<open>reduce\<close> callback, for one comma-separated token.\<close>

definition addField :: "selection \<Rightarrow> string \<Rightarrow> exn + selection" where
  "addField acc field =
     (let parts = splitOn CHR ''.'' (trim field) in
      if length parts > 1 then
        (let parent = hd parts; children = tl parts in
         case getProp acc parent of
           None \<Rightarrow> map_sum id (\<lambda>s. setProp acc parent (SSelect s)) (assignPath [] children)
         | Some (SSelect s0) \<Rightarrow>
             map_sum id (\<lambda>s. setProp acc parent (SSelect s)) (assignPath s0 children)
         | Some _ \<Rightarrow> Inl TypeError)
      else Inr (setProp acc (hd parts) STrue))"

fun reduceFields :: "selection \<Rightarrow> string list \<Rightarrow> exn + selection" where
  "reduceFields acc [] = Inr acc"
| "reduceFields acc (f # fs) =
     (case addField acc f of Inl e \<Rightarrow> Inl e | Inr acc' \<Rightarrow> reduceFields acc' fs)"

text \<open>
  \<^verbatim>\<open>fields ? fields.split(",").reduce(..., { id: true }) : { id: true }\<close>, the same
  expression in getAllUsers and in getUserById. An absent and an empty string are falsy.
\<close>

definition fieldSelections :: "string option \<Rightarrow> exn + selection" where
  "fieldSelections flds =
     (case flds of
        None \<Rightarrow> Inr [(''id'', STrue)]
      | Some f \<Rightarrow>
          if f = [] then Inr [(''id'', STrue)]
          else reduceFields [(''id'', STrue)] (splitOn CHR '','' f))"


section \<open>JavaScript numbers\<close>

text \<open>
  A JavaScript number is an IEEE 754 double: a rational that the format represents, an
  infinity or \<^verbatim>\<open>NaN\<close>. The sign of a zero is not kept: no result of the services
  depends on it.
\<close>

datatype jsnum = Num rat | Infinity | NegInfinity | NaN

text \<open>Rounding to the nearest integer, a tie to the even one.\<close>

definition roundEven :: "rat \<Rightarrow> int" where
  "roundEven q =
     (let f = \<lfloor>q\<rfloor>; d = q - of_int f
      in if d < 1 / 2 then f else if 1 / 2 < d then f + 1 else if even f then f else f + 1)"

text \<open>
  The double nearest to a positive rational. Below \<open>2 ^ 53\<close> the rational is scaled up
  by the least power of two that brings it to \<open>2 ^ 52\<close> or more, by \<open>2 ^ 1074\<close> at most
  (the subnormal numbers); from \<open>2 ^ 53\<close> on it is scaled down by the least power of two
  that brings it below \<open>2 ^ 53\<close>. The scaled value is rounded to an integer, which is the
  significand. A result of \<open>2 ^ 1024\<close> or more is an overflow.
\<close>

definition upShift :: "rat \<Rightarrow> nat" where
  "upShift x = length (takeWhile (\<lambda>s. x * 2 ^ s < 2 ^ 52) [0..<1074])"

definition downShift :: "rat \<Rightarrow> nat" where
  "downShift x = length (takeWhile (\<lambda>k. 2 ^ 53 \<le> x / 2 ^ k) [0..<972])"

definition roundPos :: "rat \<Rightarrow> jsnum" where
  "roundPos x =
     (if x < 2 ^ 53 then
        (let s = upShift x in Num (of_int (roundEven (x * 2 ^ s)) / 2 ^ s))
      else
        (let k = downShift x; y = of_int (roundEven (x / 2 ^ k)) * 2 ^ k
         in if 2 ^ 1024 \<le> y then Infinity else Num y))"

definition jsNeg :: "jsnum \<Rightarrow> jsnum" where
  "jsNeg a = (case a of Num x \<Rightarrow> Num (- x) | Infinity \<Rightarrow> NegInfinity
              | NegInfinity \<Rightarrow> Infinity | NaN \<Rightarrow> NaN)"

definition toDouble :: "rat \<Rightarrow> jsnum" where
  "toDouble x = (if x = 0 then Num 0 else if 0 < x then roundPos x else jsNeg (roundPos (- x)))"

text \<open>The operators \<^verbatim>\<open>+\<close>, \<^verbatim>\<open>-\<close>, \<^verbatim>\<open>*\<close>, \<^verbatim>\<open>/\<close> and \<^verbatim>\<open><\<close>, and \<^verbatim>\<open>Math.ceil\<close>.\<close>

fun jsAdd :: "jsnum \<Rightarrow> jsnum \<Rightarrow> jsnum" where
  "jsAdd (Num x) (Num y) = toDouble (x + y)"
| "jsAdd NaN b = NaN"
| "jsAdd a NaN = NaN"
| "jsAdd Infinity NegInfinity = NaN"
| "jsAdd NegInfinity Infinity = NaN"
| "jsAdd Infinity b = Infinity"
| "jsAdd NegInfinity b = NegInfinity"
| "jsAdd (Num x) b = b"

definition jsSub :: "jsnum \<Rightarrow> jsnum \<Rightarrow> jsnum" where
  "jsSub a b = jsAdd a (jsNeg b)"

definition infinityOf :: "bool \<Rightarrow> jsnum" where
  "infinityOf up = (if up then Infinity else NegInfinity)"

fun jsMul :: "jsnum \<Rightarrow> jsnum \<Rightarrow> jsnum" where
  "jsMul (Num x) (Num y) = toDouble (x * y)"
| "jsMul NaN b = NaN"
| "jsMul a NaN = NaN"
| "jsMul (Num x) b = (if x = 0 then NaN else infinityOf ((0 < x) = (b = Infinity)))"
| "jsMul a (Num y) = (if y = 0 then NaN else infinityOf ((0 < y) = (a = Infinity)))"
| "jsMul a b = infinityOf (a = b)"

fun jsDiv :: "jsnum \<Rightarrow> jsnum \<Rightarrow> jsnum" where
  "jsDiv (Num x) (Num y) =
     (if y = 0 then (if x = 0 then NaN else infinityOf (0 < x)) else toDouble (x / y))"
| "jsDiv NaN b = NaN"
| "jsDiv a NaN = NaN"
| "jsDiv (Num x) b = Num 0"
| "jsDiv a (Num y) = infinityOf ((0 \<le> y) = (a = Infinity))"
| "jsDiv a b = NaN"

fun jsLess :: "jsnum \<Rightarrow> jsnum \<Rightarrow> bool" where
  "jsLess (Num x) (Num y) = (x < y)"
| "jsLess NaN b = False"
| "jsLess a NaN = False"
| "jsLess a NegInfinity = False"
| "jsLess Infinity b = False"
| "jsLess a b = True"

definition jsCeil :: "jsnum \<Rightarrow> jsnum" where
  "jsCeil a = (case a of Num x \<Rightarrow> Num (of_int \<lceil>x\<rceil>) | other \<Rightarrow> other)"

text \<open>The integer that a number is, if it is one.\<close>

definition asInt :: "jsnum \<Rightarrow> int option" where
  "asInt a = (case a of Num x \<Rightarrow> (if of_int \<lfloor>x\<rfloor> = x then Some \<lfloor>x\<rfloor> else None)
              | other \<Rightarrow> None)"

section \<open>Persistence layer\<close>

text \<open>
  Modelled from the spec: the persistence engine and the schema of the User entity are
  not under src/. Section 3 of the specification gives the entity, and sections 1 and 4.4
  a generic document store with find, count, create and update. A stored user is a
  record; the engine sees it as a document of named values.
\<close>

datatype val = VNull | VBool bool | VNum int | VStr string | VDate nat | VObj "(string \<times> val) list"

type_synonym doc = "(string \<times> val) list"

datatype Role = admin | driver | passenger

datatype Status = active | inactive | banned

fun roleName :: "Role \<Rightarrow> string" where
  "roleName admin = ''admin''"
| "roleName driver = ''driver''"
| "roleName passenger = ''passenger''"

fun statusName :: "Status \<Rightarrow> string" where
  "statusName active = ''active''"
| "statusName inactive = ''inactive''"
| "statusName banned = ''banned''"

record Metadata =
  address :: "string option"
  phone :: "string option"
  age :: "int option"
  gender :: "string option"

text \<open>The field \<^verbatim>\<open>id\<close> of a user is \<open>userId\<close> here; its document key stays \<^verbatim>\<open>id\<close>.\<close>

record User =
  userId :: string
  firstName :: string
  lastName :: string
  middleName :: "string option"
  email :: string
  password :: string
  role :: Role
  status :: Status
  avatar :: "string option"
  metadata :: "Metadata option"
  isDeleted :: bool
  createdAt :: nat
  updatedAt :: nat

definition optStr :: "string option \<Rightarrow> val" where
  "optStr s = (case s of None \<Rightarrow> VNull | Some x \<Rightarrow> VStr x)"

definition metadataDoc :: "Metadata \<Rightarrow> doc" where
  "metadataDoc m =
     [(''address'', optStr (address m)), (''phone'', optStr (phone m)),
      (''age'', (case age m of None \<Rightarrow> VNull | Some n \<Rightarrow> VNum n)),
      (''gender'', optStr (gender m))]"

definition userDoc :: "User \<Rightarrow> doc" where
  "userDoc u =
     [(''id'', VStr (userId u)), (''firstName'', VStr (firstName u)),
      (''lastName'', VStr (lastName u)), (''middleName'', optStr (middleName u)),
      (''email'', VStr (email u)), (''password'', VStr (password u)),
      (''role'', VStr (roleName (role u))), (''status'', VStr (statusName (status u))),
      (''avatar'', optStr (avatar u)),
      (''metadata'', (case metadata u of None \<Rightarrow> VNull | Some m \<Rightarrow> VObj (metadataDoc m))),
      (''isDeleted'', VBool (isDeleted u)), (''createdAt'', VDate (createdAt u)),
      (''updatedAt'', VDate (updatedAt u))]"

text \<open>
  A where-clause is an object of conditions, all of which must hold. A key bound to a
  plain value is an equality condition on the field of that name; the key \<^verbatim>\<open>OR\<close> is
  bound by the service to a list of case-insensitive \<^verbatim>\<open>contains\<close> conditions.
\<close>

datatype cond = Equals val | AnyContains "string list" string

type_synonym whereInput = "(string \<times> cond) list"

definition toLower :: "char \<Rightarrow> char" where
  "toLower c = (let n = (of_char c :: nat) in if 65 \<le> n \<and> n \<le> 90 then char_of (n + 32) else c)"

fun containsStr :: "string \<Rightarrow> string \<Rightarrow> bool" where
  "containsStr [] q = (q = [])"
| "containsStr (c # cs) q = (startsWith (c # cs) q \<or> containsStr cs q)"

definition containsInsensitive :: "string \<Rightarrow> string \<Rightarrow> bool" where
  "containsInsensitive s q = containsStr (map toLower s) (map toLower q)"

fun condHolds :: "doc \<Rightarrow> string \<Rightarrow> cond \<Rightarrow> bool" where
  "condHolds d k (Equals v) = (map_of d k = Some v)"
| "condHolds d k (AnyContains fs q) =
     list_ex (\<lambda>f. case map_of d f of Some (VStr s) \<Rightarrow> containsInsensitive s q | _ \<Rightarrow> False) fs"

definition matchesWhere :: "whereInput \<Rightarrow> User \<Rightarrow> bool" where
  "matchesWhere w u = list_all (\<lambda>(k, c). condHolds (userDoc u) k c) w"

text \<open>
  The projection of a document by a selection: a selected field is returned, a nested
  selection projects the nested document, a name the document lacks is ignored.
\<close>

fun projectDoc :: "selection \<Rightarrow> doc \<Rightarrow> doc" where
  "projectDoc s [] = []"
| "projectDoc s ((k, v) # rest) =
     (case map_of s k of
        None \<Rightarrow> projectDoc s rest
      | Some (SSelect sub) \<Rightarrow>
          (case v of
             VObj d \<Rightarrow> (k, VObj (projectDoc sub d)) # projectDoc s rest
           | _ \<Rightarrow> (k, v) # projectDoc s rest)
      | Some _ \<Rightarrow> (k, v) # projectDoc s rest)"

text \<open>
  JSON values, as \<^verbatim>\<open>JSON.parse\<close> returns them and as a sort specification is handed
  to the engine. A number is kept as its literal.
\<close>

datatype json = JNull | JBool bool | JNum string | JStr string | JArr "json list"
  | JObj "(string \<times> json) list"

text \<open>
  The engine orders the matching records by a comparison it derives from the sort
  specification. The comparison is a parameter \<open>le\<close> of the model; the records are
  inserted one by one, so the result is a rearrangement of the input whatever \<open>le\<close> is.
\<close>

fun insertBy :: "('a \<Rightarrow> 'a \<Rightarrow> bool) \<Rightarrow> 'a \<Rightarrow> 'a list \<Rightarrow> 'a list" where
  "insertBy le x [] = [x]"
| "insertBy le x (y # ys) = (if le x y then x # y # ys else y # insertBy le x ys)"

definition sortBy :: "('a \<Rightarrow> 'a \<Rightarrow> bool) \<Rightarrow> 'a list \<Rightarrow> 'a list" where
  "sortBy le xs = foldr (insertBy le) xs []"

text \<open>
  Offset and limit. The engine rejects a negative \<^verbatim>\<open>skip\<close>; a negative \<^verbatim>\<open>take\<close>
  counts from the end of the ordered list. It takes integers only: \<^verbatim>\<open>findMany\<close> rejects
  a \<^verbatim>\<open>skip\<close> or a \<^verbatim>\<open>take\<close> that is not one.
\<close>

definition window :: "int \<Rightarrow> int \<Rightarrow> 'a list \<Rightarrow> exn + 'a list" where
  "window skip tk xs =
     (if skip < 0 then Inl PersistenceError
      else if 0 \<le> tk then Inr (take (nat tk) (drop (nat skip) xs))
      else Inr (rev (take (nat (- tk)) (drop (nat skip) (rev xs)))))"

text \<open>The arguments of \<^verbatim>\<open>findMany\<close>, as getAllUsers builds them.\<close>

record FindManyArgs =
  whereArg :: whereInput
  skipArg :: jsnum
  takeArg :: jsnum
  orderByArg :: json
  selectArg :: selection

definition findMany ::
  "(json \<Rightarrow> User \<Rightarrow> User \<Rightarrow> bool) \<Rightarrow> User list \<Rightarrow> FindManyArgs \<Rightarrow> exn + doc list" where
  "findMany le db args =
     (case (asInt (skipArg args), asInt (takeArg args)) of
        (Some skip, Some tk) \<Rightarrow>
          map_sum id (map (\<lambda>u. projectDoc (selectArg args) (userDoc u)))
            (window skip tk
               (sortBy (le (orderByArg args)) (filter (matchesWhere (whereArg args)) db)))
      | other \<Rightarrow> Inl PersistenceError)"

definition count :: "User list \<Rightarrow> whereInput \<Rightarrow> nat" where
  "count db w = length (filter (matchesWhere w) db)"

text \<open>\<^verbatim>\<open>findUnique\<close>: the record that satisfies the where-clause, if there is one.\<close>

definition findUnique :: "User list \<Rightarrow> whereInput \<Rightarrow> User option" where
  "findUnique db w = find (matchesWhere w) db"

section \<open>User listing and retrieval service\<close>

datatype Order = asc | desc

fun orderName :: "Order \<Rightarrow> string" where
  "orderName asc = ''asc''"
| "orderName desc = ''desc''"

text \<open>
  The parameter object of getAllUsers; \<open>None\<close> is \<^verbatim>\<open>undefined\<close>. The page and the
  limit are JavaScript numbers. The
  fields \<^verbatim>\<open>sort\<close>, \<^verbatim>\<open>order\<close> and \<^verbatim>\<open>fields\<close> carry the suffix \<open>Param\<close>.
\<close>

record Params =
  page :: "jsnum option"
  limit :: "jsnum option"
  sortParam :: "string option"
  orderParam :: "Order option"
  fieldsParam :: "string option"
  query :: "string option"
  filters :: "(string \<times> val) list option"

text \<open>
  The pagination object (\<^verbatim>\<open>total\<close>, \<^verbatim>\<open>page\<close>, \<^verbatim>\<open>limit\<close>, \<^verbatim>\<open>totalPages\<close>,
  \<^verbatim>\<open>hasMore\<close>) and the results of the services. The field \<^verbatim>\<open>data\<close> of a result is
  \<open>users\<close> in the result of getAllUsers and \<open>found\<close> in the results of getUserById and
  updateUser.
\<close>

record Pagination =
  pgTotal :: jsnum
  pgPage :: jsnum
  pgLimit :: jsnum
  totalPages :: jsnum
  hasMore :: bool

record Result =
  success :: bool
  message :: string

record ListResult = Result +
  users :: "doc list option"
  pagination :: "Pagination option"

text \<open>Object spread: the properties of the second object are defined on the first.\<close>

definition spread :: "(string \<times> 'v) list \<Rightarrow> (string \<times> 'v) list \<Rightarrow> (string \<times> 'v) list" where
  "spread base extra = foldl (\<lambda>obj (k, v). ownSet obj k v) base extra"

definition searchFields :: "string list" where
  "searchFields = [''firstName'', ''lastName'', ''middleName'', ''email'']"

definition whereClause :: "string option \<Rightarrow> (string \<times> val) list option \<Rightarrow> whereInput" where
  "whereClause q fs =
     spread
       (spread [(''isDeleted'', Equals (VBool False))]
          (case q of
             None \<Rightarrow> []
           | Some s \<Rightarrow> if s = [] then [] else [(''OR'', AnyContains searchFields s)]))
       (case fs of None \<Rightarrow> [] | Some f \<Rightarrow> map (\<lambda>(k, v). (k, Equals v)) f)"

text \<open>
  \<^verbatim>\<open>sort ? (typeof sort === "string" && !sort.startsWith("{") ? { [sort]: order }
  : JSON.parse(sort)) : { createdAt: order }\<close>. \<^verbatim>\<open>JSON.parse\<close> is the parameter
  \<open>jsonParse\<close>; \<open>None\<close> is its SyntaxError.
\<close>

definition orderByOf :: "(string \<Rightarrow> json option) \<Rightarrow> string option \<Rightarrow> Order \<Rightarrow> exn + json" where
  "orderByOf jsonParse srt ord =
     (case srt of
        None \<Rightarrow> Inr (JObj [(''createdAt'', JStr (orderName ord))])
      | Some s \<Rightarrow>
          if s = [] then Inr (JObj [(''createdAt'', JStr (orderName ord))])
          else if \<not> startsWith s ''{'' then Inr (JObj [(s, JStr (orderName ord))])
          else (case jsonParse s of None \<Rightarrow> Inl SyntaxError | Some j \<Rightarrow> Inr j))"

text \<open>
  \<^verbatim>\<open>findManyQuery\<close> with its \<^verbatim>\<open>select\<close> set: the defaults of the parameters, the
  offset, the where-clause, the sort specification and the field selection.
\<close>

definition findManyQuery :: "(string \<Rightarrow> json option) \<Rightarrow> Params \<Rightarrow> exn + FindManyArgs" where
  "findManyQuery jsonParse params =
     (let pg = (case page params of None \<Rightarrow> Num 1 | Some p \<Rightarrow> p);
          lmt = (case limit params of None \<Rightarrow> Num 10 | Some l \<Rightarrow> l);
          ord = (case orderParam params of None \<Rightarrow> desc | Some d \<Rightarrow> d);
          skip = jsMul (jsSub pg (Num 1)) lmt;
          wc = whereClause (query params) (filters params)
      in case orderByOf jsonParse (sortParam params) ord of
           Inl e \<Rightarrow> Inl e
         | Inr orderBy \<Rightarrow>
        (case fieldSelections (fieldsParam params) of
           Inl e \<Rightarrow> Inl e
         | Inr sel \<Rightarrow>
             Inr \<lparr>whereArg = wc, skipArg = skip, takeArg = lmt, orderByArg = orderBy,
                  selectArg = sel\<rparr>))"

text \<open>
  The body of the \<^verbatim>\<open>try\<close> block of getAllUsers: the query is built, the page and
  the count are read, the result is assembled.
\<close>

definition getAllUsersTry ::
  "(string \<Rightarrow> json option) \<Rightarrow> (json \<Rightarrow> User \<Rightarrow> User \<Rightarrow> bool) \<Rightarrow> User list \<Rightarrow> Params
     \<Rightarrow> exn + ListResult" where
  "getAllUsersTry jsonParse le db params =
     (case findManyQuery jsonParse params of
        Inl e \<Rightarrow> Inl e
      | Inr qy \<Rightarrow>
          (case findMany le db qy of
             Inl e \<Rightarrow> Inl e
           | Inr rows \<Rightarrow>
               (let tot = toDouble (of_nat (count db (whereArg qy)));
                    pg = (case page params of None \<Rightarrow> Num 1 | Some p \<Rightarrow> p);
                    lmt = takeArg qy;
                    skip = skipArg qy
                in Inr \<lparr>success = True, message = ''Users retrieved successfully'',
                        users = Some rows,
                        pagination = Some \<lparr>pgTotal = tot, pgPage = pg, pgLimit = lmt,
                          totalPages = jsCeil (jsDiv tot lmt),
                          hasMore = jsLess (jsAdd skip lmt) tot\<rparr>\<rparr>)))"

text \<open>getAllUsers: whatever the \<^verbatim>\<open>try\<close> block throws is caught and reported as a failure.\<close>

definition getAllUsers ::
  "(string \<Rightarrow> json option) \<Rightarrow> (json \<Rightarrow> User \<Rightarrow> User \<Rightarrow> bool) \<Rightarrow> User list \<Rightarrow> Params \<Rightarrow> ListResult" where
  "getAllUsers jsonParse le db params =
     (case getAllUsersTry jsonParse le db params of
        Inl e \<Rightarrow> \<lparr>success = False, message = ''Server error'', users = None, pagination = None\<rparr>
      | Inr r \<Rightarrow> r)"

record GetResult = Result +
  found :: "doc option"

definition getUserByIdTry :: "User list \<Rightarrow> string \<Rightarrow> string option \<Rightarrow> exn + GetResult" where
  "getUserByIdTry db ident flds =
     (case fieldSelections flds of
        Inl e \<Rightarrow> Inl e
      | Inr sel \<Rightarrow>
          (case findUnique db [(''id'', Equals (VStr ident)), (''isDeleted'', Equals (VBool False))] of
             None \<Rightarrow> Inr \<lparr>success = False, message = ''User not found'', found = None\<rparr>
           | Some u \<Rightarrow>
               Inr \<lparr>success = True, message = ''User retrieved successfully'',
                    found = Some (projectDoc sel (userDoc u))\<rparr>))"

definition getUserById :: "User list \<Rightarrow> string \<Rightarrow> string option \<Rightarrow> GetResult" where
  "getUserById db ident flds =
     (case getUserByIdTry db ident flds of
        Inl e \<Rightarrow> \<lparr>success = False, message = ''Server error'', found = None\<rparr>
      | Inr r \<Rightarrow> r)"

section \<open>Dynamic filter builder of the list handler\<close>

text \<open>
  A value of \<^verbatim>\<open>req.query\<close>: a string, or an array or object when the parameter is
  repeated or bracketed.
\<close>

datatype qval = QString string | QArray "qval list" | QObject "(string \<times> qval) list"

text \<open>\<^verbatim>\<open>String.prototype.replace\<close> with a string pattern: the first occurrence only.\<close>

fun replaceFirst :: "string \<Rightarrow> string \<Rightarrow> string \<Rightarrow> string" where
  "replaceFirst pat rep [] = (if pat = [] then rep else [])"
| "replaceFirst pat rep (c # cs) =
     (if startsWith (c # cs) pat then rep @ drop (length pat) (c # cs)
      else c # replaceFirst pat rep cs)"

text \<open>
  The callback of \<^verbatim>\<open>Object.keys(req.query).forEach\<close>: a key with the prefix is
  stripped of it, and its value is stored when it is truthy and a string.
\<close>

definition filterStep :: "(string \<times> qval) list \<Rightarrow> (string \<times> val) list \<Rightarrow> string \<Rightarrow> (string \<times> val) list" where
  "filterStep q acc key =
     (if startsWith key ''filter_'' then
        (let fieldName = replaceFirst ''filter_'' [] key in
         case map_of q key of
           Some (QString s) \<Rightarrow> if s \<noteq> [] then setProp acc fieldName (VStr s) else acc
         | _ \<Rightarrow> acc)
      else acc)"

definition buildFilters :: "(string \<times> qval) list \<Rightarrow> (string \<times> val) list" where
  "buildFilters q = foldl (filterStep q) [] (map fst q)"

text \<open>\<^verbatim>\<open>filters: Object.keys(filters).length > 0 ? filters : undefined\<close>\<close>

definition filtersParam :: "(string \<times> qval) list \<Rightarrow> (string \<times> val) list option" where
  "filtersParam q = (let f = buildFilters q in if length f > 0 then Some f else None)"

section \<open>A reader for JSON text\<close>

text \<open>
  \<^verbatim>\<open>JSON.parse\<close> belongs to the runtime; the services take it as a parameter. The
  reader below follows the JSON grammar and serves as the instance at which statements
  about concrete sort values are evaluated. An escape \<^verbatim>\<open>\u\<close> is read when it names a
  code unit below 256, the range of the string model. The recursion is bounded by the
  length of the text, and every call consumes a character.
\<close>

definition isWs :: "char \<Rightarrow> bool" where
  "isWs c \<longleftrightarrow> c \<in> set [CHR 0x20, CHR 0x09, CHR 0x0A, CHR 0x0D]"

definition isDigit :: "char \<Rightarrow> bool" where
  "isDigit c \<longleftrightarrow> (let n = (of_char c :: nat) in 48 \<le> n \<and> n \<le> 57)"

definition hexDigit :: "char \<Rightarrow> nat option" where
  "hexDigit c =
     (let n = (of_char c :: nat) in
      if 48 \<le> n \<and> n \<le> 57 then Some (n - 48)
      else if 65 \<le> n \<and> n \<le> 70 then Some (n - 55)
      else if 97 \<le> n \<and> n \<le> 102 then Some (n - 87)
      else None)"

fun hexValue :: "nat \<Rightarrow> string \<Rightarrow> nat option" where
  "hexValue acc [] = Some acc"
| "hexValue acc (c # cs) =
     (case hexDigit c of None \<Rightarrow> None | Some d \<Rightarrow> hexValue (16 * acc + d) cs)"

definition unescape :: "char \<Rightarrow> char option" where
  "unescape e =
     (if e = CHR 0x22 \<or> e = CHR 0x5C \<or> e = CHR ''/'' then Some e
      else if e = CHR ''b'' then Some (CHR 0x08)
      else if e = CHR ''f'' then Some (CHR 0x0C)
      else if e = CHR ''n'' then Some (CHR 0x0A)
      else if e = CHR ''r'' then Some (CHR 0x0D)
      else if e = CHR ''t'' then Some (CHR 0x09)
      else None)"

text \<open>The characters of a string literal after its opening quote, and the rest.\<close>

fun lexString :: "string \<Rightarrow> (string \<times> string) option" where
  "lexString [] = None"
| "lexString (c # cs) =
     (if c = CHR 0x22 then Some ([], cs)
      else if c = CHR 0x5C then
        (case cs of
           [] \<Rightarrow> None
         | e # r \<Rightarrow>
             (case unescape e of
                Some ch \<Rightarrow> map_option (\<lambda>(str, rest). (ch # str, rest)) (lexString r)
              | None \<Rightarrow>
                  if e = CHR ''u'' \<and> 4 \<le> length r then
                    (case hexValue 0 (take 4 r) of
                       None \<Rightarrow> None
                     | Some n \<Rightarrow>
                         if n < 256
                         then map_option (\<lambda>(str, rest). (char_of n # str, rest)) (lexString (drop 4 r))
                         else None)
                  else None))
      else if (of_char c :: nat) < 32 then None
      else map_option (\<lambda>(str, rest). (c # str, rest)) (lexString cs))"

definition lexFraction :: "string \<Rightarrow> (string \<times> string) option" where
  "lexFraction s =
     (case s of
        [] \<Rightarrow> Some ([], [])
      | c # cs \<Rightarrow>
          if c = CHR ''.'' then
            (if takeWhile isDigit cs = [] then None
             else Some (c # takeWhile isDigit cs, dropWhile isDigit cs))
          else Some ([], s))"

definition lexExponent :: "string \<Rightarrow> (string \<times> string) option" where
  "lexExponent s =
     (case s of
        [] \<Rightarrow> Some ([], [])
      | c # cs \<Rightarrow>
          if c = CHR ''e'' \<or> c = CHR ''E'' then
            (let sg = (case cs of [] \<Rightarrow> [] | d # _ \<Rightarrow> if d = CHR ''+'' \<or> d = CHR ''-'' then [d] else []);
                 ds = drop (length sg) cs
             in if takeWhile isDigit ds = [] then None
                else Some (c # sg @ takeWhile isDigit ds, dropWhile isDigit ds))
          else Some ([], s))"

text \<open>A number literal at the head of the text, and the rest.\<close>

definition lexNumber :: "string \<Rightarrow> (string \<times> string) option" where
  "lexNumber s =
     (let sg = (if startsWith s ''-'' then ''-'' else []);
          s1 = drop (length sg) s;
          ip = takeWhile isDigit s1
      in if ip = [] \<or> (hd ip = CHR ''0'' \<and> 1 < length ip) then None
         else (case lexFraction (dropWhile isDigit s1) of
                 None \<Rightarrow> None
               | Some (fr, s3) \<Rightarrow>
                   (case lexExponent s3 of
                      None \<Rightarrow> None
                    | Some (ex, s4) \<Rightarrow> Some (sg @ ip @ fr @ ex, s4))))"

fun parseValue :: "nat \<Rightarrow> string \<Rightarrow> (json \<times> string) option"
  and parseElements :: "nat \<Rightarrow> string \<Rightarrow> (json list \<times> string) option"
  and parseMembers :: "nat \<Rightarrow> string \<Rightarrow> ((string \<times> json) list \<times> string) option" where
  "parseValue 0 s = None"
| "parseValue (Suc n) s =
     (case dropWhile isWs s of
        [] \<Rightarrow> None
      | c # cs \<Rightarrow>
          if c = CHR ''{'' then
            (case dropWhile isWs cs of
               [] \<Rightarrow> None
             | d # r \<Rightarrow>
                 if d = CHR ''}'' then Some (JObj [], r)
                 else map_option (\<lambda>(ms, rest). (JObj (foldl (\<lambda>obj (k, v). ownSet obj k v) [] ms), rest))
                        (parseMembers n cs))
          else if c = CHR ''['' then
            (case dropWhile isWs cs of
               [] \<Rightarrow> None
             | d # r \<Rightarrow>
                 if d = CHR '']'' then Some (JArr [], r)
                 else map_option (\<lambda>(vs, rest). (JArr vs, rest)) (parseElements n cs))
          else if c = CHR 0x22 then map_option (\<lambda>(str, rest). (JStr str, rest)) (lexString cs)
          else if startsWith (c # cs) ''true'' then Some (JBool True, drop 4 (c # cs))
          else if startsWith (c # cs) ''false'' then Some (JBool False, drop 5 (c # cs))
          else if startsWith (c # cs) ''null'' then Some (JNull, drop 4 (c # cs))
          else map_option (\<lambda>(num, rest). (JNum num, rest)) (lexNumber (c # cs)))"
| "parseElements 0 s = None"
| "parseElements (Suc n) s =
     (case parseValue n s of
        None \<Rightarrow> None
      | Some (v, r) \<Rightarrow>
          (case dropWhile isWs r of
             [] \<Rightarrow> None
           | d # r' \<Rightarrow>
               if d = CHR '','' then map_option (\<lambda>(vs, rest). (v # vs, rest)) (parseElements n r')
               else if d = CHR '']'' then Some ([v], r')
               else None))"
| "parseMembers 0 s = None"
| "parseMembers (Suc n) s =
     (case dropWhile isWs s of
        [] \<Rightarrow> None
      | q # r \<Rightarrow>
          if q \<noteq> CHR 0x22 then None
          else
            (case lexString r of
               None \<Rightarrow> None
             | Some (k, r1) \<Rightarrow>
                 (case dropWhile isWs r1 of
                    [] \<Rightarrow> None
                  | col # r2 \<Rightarrow>
                      if col \<noteq> CHR '':'' then None
                      else
                        (case parseValue n r2 of
                           None \<Rightarrow> None
                         | Some (v, r3) \<Rightarrow>
                             (case dropWhile isWs r3 of
                                [] \<Rightarrow> None
                              | d # r4 \<Rightarrow>
                                  if d = CHR '','' then
                                    map_option (\<lambda>(ms, rest). ((k, v) # ms, rest)) (parseMembers n r4)
                                  else if d = CHR ''}'' then Some ([(k, v)], r4)
                                  else None)))))"

definition jsonRead :: "string \<Rightarrow> json option" where
  "jsonRead s =
     (case parseValue (Suc (length s)) s of
        None \<Rightarrow> None
      | Some (v, rest) \<Rightarrow> if dropWhile isWs rest = [] then Some v else None)"

section \<open>Permission model\<close>

datatype Permission = ReadUsers | WriteUsers | DeleteUsers | AdminAll

fun ROLE_PERMISSIONS :: "Role \<Rightarrow> Permission list" where
  "ROLE_PERMISSIONS admin = [ReadUsers, WriteUsers, DeleteUsers, AdminAll]"
| "ROLE_PERMISSIONS driver = [ReadUsers]"
| "ROLE_PERMISSIONS passenger = [ReadUsers]"

definition hasPermission :: "Role \<Rightarrow> Permission \<Rightarrow> bool" where
  "hasPermission userRole permission =
     (let permissions = ROLE_PERMISSIONS userRole
      in permission \<in> set permissions \<or> AdminAll \<in> set permissions)"

definition isRoleAllowed :: "Role \<Rightarrow> Role list \<Rightarrow> bool" where
  "isRoleAllowed userRole allowedRoles = (userRole \<in> set allowedRoles)"

definition checkPermission :: "Role \<Rightarrow> Permission \<Rightarrow> exn + unit" where
  "checkPermission userRole permission =
     (if \<not> hasPermission userRole permission then Inl (Error ''Insufficient permissions'')
      else Inr ())"

definition checkRole :: "Role \<Rightarrow> Role list \<Rightarrow> exn + unit" where
  "checkRole userRole allowedRoles =
     (if \<not> isRoleAllowed userRole allowedRoles then Inl (Error ''Insufficient permissions'')
      else Inr ())"

definition requireAdminPermission :: "Role option \<Rightarrow> exn + unit" where
  "requireAdminPermission userRole =
     (case userRole of
        None \<Rightarrow> Inl (Error ''Authentication required'')
      | Some r \<Rightarrow> checkRole r [admin])"

definition requireWritePermission :: "Role option \<Rightarrow> exn + unit" where
  "requireWritePermission userRole =
     (case userRole of
        None \<Rightarrow> Inl (Error ''Authentication required'')
      | Some r \<Rightarrow> checkPermission r WriteUsers)"

definition requireDeletePermission :: "Role option \<Rightarrow> exn + unit" where
  "requireDeletePermission userRole =
     (case userRole of
        None \<Rightarrow> Inl (Error ''Authentication required'')
      | Some r \<Rightarrow> checkPermission r DeleteUsers)"

section \<open>User mutation service and auth service\<close>

text \<open>
  The collaborators of the services: the password hash and its comparison, the token
  signature, the identifier the engine gives a new record, and the clock.
\<close>

record Env =
  bcryptHash :: "string \<Rightarrow> string"
  bcryptCompare :: "string \<Rightarrow> string \<Rightarrow> bool"
  jwtSign :: "string \<Rightarrow> string"
  newId :: "User list \<Rightarrow> string"
  now :: nat

record CreateUserData =
  newEmail :: string
  newFirstName :: string
  newLastName :: string
  newMiddleName :: "string option"
  newRole :: "Role option"
  newStatus :: "Status option"
  newPassword :: string
  newMetadata :: "Metadata option"

record UpdateUserData =
  setFirstName :: "string option"
  setLastName :: "string option"
  setMiddleName :: "string option"
  setEmail :: "string option"
  setRole :: "Role option"
  setStatus :: "Status option"
  setAvatar :: "string option"
  setPassword :: "string option"
  setMetadata :: "Metadata option"

record UserResult = Result +
  user :: "doc option"
  token :: "string option"

text \<open>
  Modelled from the spec: the record the engine creates for \<^verbatim>\<open>prisma.user.create\<close>,
  with the defaults of section 3 (role passenger, status active, not deleted) where the
  input leaves a field out; the schema is not under src/.
\<close>

definition createRecord :: "Env \<Rightarrow> User list \<Rightarrow> CreateUserData \<Rightarrow> string \<Rightarrow> User" where
  "createRecord env db d hashedPassword =
     \<lparr>userId = newId env db, firstName = newFirstName d, lastName = newLastName d,
      middleName = newMiddleName d, email = newEmail d, password = hashedPassword,
      role = (case newRole d of None \<Rightarrow> passenger | Some r \<Rightarrow> r),
      status = (case newStatus d of None \<Rightarrow> active | Some s \<Rightarrow> s),
      avatar = None, metadata = newMetadata d, isDeleted = False,
      createdAt = now env, updatedAt = now env\<rparr>"

definition createSelect :: selection where
  "createSelect =
     [(''id'', STrue), (''firstName'', STrue), (''lastName'', STrue), (''middleName'', STrue),
      (''email'', STrue), (''metadata'', STrue), (''createdAt'', STrue)]"

text \<open>
  The steps of createUserAdmin after its permission check, which are the whole
  \<^verbatim>\<open>try\<close> block of register: the lookup by email, the hash, the creation, the token.
\<close>

definition createSteps :: "Env \<Rightarrow> User list \<Rightarrow> CreateUserData \<Rightarrow> exn + (User list \<times> UserResult)" where
  "createSteps env db d =
     (case findUnique db [(''email'', Equals (VStr (newEmail d)))] of
        Some existingUser \<Rightarrow>
          Inr (db, \<lparr>success = False, message = ''User already exists'', user = None, token = None\<rparr>)
      | None \<Rightarrow>
          (let hashedPassword = bcryptHash env (newPassword d);
               u = createRecord env db d hashedPassword;
               tok = jwtSign env (userId u)
           in Inr (db @ [u],
                   \<lparr>success = True, message = ''User created successfully'',
                    user = Some (projectDoc createSelect (userDoc u)), token = Some tok\<rparr>)))"

definition createUserAdminTry ::
  "Env \<Rightarrow> User list \<Rightarrow> CreateUserData \<Rightarrow> Role option \<Rightarrow> exn + (User list \<times> UserResult)" where
  "createUserAdminTry env db d userRole =
     (case requireAdminPermission userRole of
        Inl e \<Rightarrow> Inl e
      | Inr _ \<Rightarrow> createSteps env db d)"

text \<open>
  createUserAdmin returns the store it leaves and its result. The \<^verbatim>\<open>catch\<close> block
  answers every exception of the \<^verbatim>\<open>try\<close> block, the permission check inside it too.
\<close>

definition createUserAdmin ::
  "Env \<Rightarrow> User list \<Rightarrow> CreateUserData \<Rightarrow> Role option \<Rightarrow> User list \<times> UserResult" where
  "createUserAdmin env db d userRole =
     (case createUserAdminTry env db d userRole of
        Inl e \<Rightarrow> (db, \<lparr>success = False, message = ''Server error'', user = None, token = None\<rparr>)
      | Inr r \<Rightarrow> r)"

definition register :: "Env \<Rightarrow> User list \<Rightarrow> CreateUserData \<Rightarrow> User list \<times> UserResult" where
  "register env db d =
     (case createSteps env db d of
        Inl e \<Rightarrow> (db, \<lparr>success = False, message = ''Server error'', user = None, token = None\<rparr>)
      | Inr r \<Rightarrow> r)"

definition updateSelect :: selection where
  "updateSelect =
     [(''id'', STrue), (''firstName'', STrue), (''lastName'', STrue), (''middleName'', STrue),
      (''email'', STrue), (''role'', STrue), (''status'', STrue), (''avatar'', STrue),
      (''metadata'', STrue), (''createdAt'', STrue), (''updatedAt'', STrue)]"

text \<open>
  The write of updateUser: a field the payload holds replaces the stored one, a field it
  leaves out stays. The password is hashed when it is truthy; an empty one is stored as
  it is.
\<close>

definition applyUpdate :: "Env \<Rightarrow> UpdateUserData \<Rightarrow> User \<Rightarrow> User" where
  "applyUpdate env d u =
     u\<lparr>firstName := (case setFirstName d of None \<Rightarrow> firstName u | Some x \<Rightarrow> x),
       lastName := (case setLastName d of None \<Rightarrow> lastName u | Some x \<Rightarrow> x),
       middleName := (case setMiddleName d of None \<Rightarrow> middleName u | Some x \<Rightarrow> Some x),
       email := (case setEmail d of None \<Rightarrow> email u | Some x \<Rightarrow> x),
       role := (case setRole d of None \<Rightarrow> role u | Some x \<Rightarrow> x),
       status := (case setStatus d of None \<Rightarrow> status u | Some x \<Rightarrow> x),
       avatar := (case setAvatar d of None \<Rightarrow> avatar u | Some x \<Rightarrow> Some x),
       password := (case setPassword d of
                      None \<Rightarrow> password u
                    | Some p \<Rightarrow> if p \<noteq> [] then bcryptHash env p else p),
       metadata := (case setMetadata d of None \<Rightarrow> metadata u | Some m \<Rightarrow> Some m),
       updatedAt := now env\<rparr>"

text \<open>\<^verbatim>\<open>prisma.user.update({ where: { id }, ... })\<close>: the record with the identifier is rewritten.\<close>

definition updateWhereId :: "User list \<Rightarrow> string \<Rightarrow> (User \<Rightarrow> User) \<Rightarrow> User list" where
  "updateWhereId db ident f = map (\<lambda>u. if userId u = ident then f u else u) db"

definition liveById :: "string \<Rightarrow> whereInput" where
  "liveById ident = [(''id'', Equals (VStr ident)), (''isDeleted'', Equals (VBool False))]"

definition updateUserTry ::
  "Env \<Rightarrow> User list \<Rightarrow> string \<Rightarrow> UpdateUserData \<Rightarrow> Role option \<Rightarrow> exn + (User list \<times> GetResult)" where
  "updateUserTry env db ident d userRole =
     (case requireWritePermission userRole of
        Inl e \<Rightarrow> Inl e
      | Inr _ \<Rightarrow>
          (case findUnique db (liveById ident) of
             None \<Rightarrow> Inr (db, \<lparr>success = False, message = ''User not found'', found = None\<rparr>)
           | Some existingUser \<Rightarrow>
               Inr (updateWhereId db ident (applyUpdate env d),
                    \<lparr>success = True, message = ''User updated successfully'',
                     found = Some (projectDoc updateSelect
                                     (userDoc (applyUpdate env d existingUser)))\<rparr>)))"

definition updateUser ::
  "Env \<Rightarrow> User list \<Rightarrow> string \<Rightarrow> UpdateUserData \<Rightarrow> Role option \<Rightarrow> User list \<times> GetResult" where
  "updateUser env db ident d userRole =
     (case updateUserTry env db ident d userRole of
        Inl e \<Rightarrow> (db, \<lparr>success = False, message = ''Server error'', found = None\<rparr>)
      | Inr r \<Rightarrow> r)"

definition deleteUserTry ::
  "Env \<Rightarrow> User list \<Rightarrow> string \<Rightarrow> Role option \<Rightarrow> exn + (User list \<times> Result)" where
  "deleteUserTry env db ident userRole =
     (case requireDeletePermission userRole of
        Inl e \<Rightarrow> Inl e
      | Inr _ \<Rightarrow>
          (case findUnique db (liveById ident) of
             None \<Rightarrow> Inr (db, \<lparr>success = False, message = ''User not found''\<rparr>)
           | Some existingUser \<Rightarrow>
               Inr (updateWhereId db ident (\<lambda>u. u\<lparr>isDeleted := True, updatedAt := now env\<rparr>),
                    \<lparr>success = True, message = ''User deleted successfully''\<rparr>)))"

definition deleteUser :: "Env \<Rightarrow> User list \<Rightarrow> string \<Rightarrow> Role option \<Rightarrow> User list \<times> Result" where
  "deleteUser env db ident userRole =
     (case deleteUserTry env db ident userRole of
        Inl e \<Rightarrow> (db, \<lparr>success = False, message = ''Server error''\<rparr>)
      | Inr r \<Rightarrow> r)"

text \<open>
  login: the lookup by email, the comparison of the stored role with the claimed one,
  then the comparison of the password. The result carries the user summary and the token.
\<close>

definition loginSummary :: selection where
  "loginSummary =
     [(''id'', STrue), (''firstName'', STrue), (''lastName'', STrue), (''middleName'', STrue),
      (''email'', STrue), (''role'', STrue), (''createdAt'', STrue)]"

definition loginTry :: "Env \<Rightarrow> User list \<Rightarrow> string \<Rightarrow> string \<Rightarrow> string \<Rightarrow> exn + UserResult" where
  "loginTry env db em pw claimed =
     (case findUnique db [(''email'', Equals (VStr em))] of
        None \<Rightarrow> Inr \<lparr>success = False, message = ''Invalid credentials'', user = None, token = None\<rparr>
      | Some u \<Rightarrow>
          if roleName (role u) \<noteq> claimed then
            Inr \<lparr>success = False, message = ''Access denied: Invalid role for this login'',
                 user = None, token = None\<rparr>
          else if \<not> bcryptCompare env pw (password u) then
            Inr \<lparr>success = False, message = ''Invalid credentials'', user = None, token = None\<rparr>
          else
            Inr \<lparr>success = True, message = ''Login successful'',
                 user = Some (projectDoc loginSummary (userDoc u)),
                 token = Some (jwtSign env (userId u))\<rparr>)"

definition login :: "Env \<Rightarrow> User list \<Rightarrow> string \<Rightarrow> string \<Rightarrow> string \<Rightarrow> UserResult" where
  "login env db em pw claimed =
     (case loginTry env db em pw claimed of
        Inl e \<Rightarrow> \<lparr>success = False, message = ''Server error'', user = None, token = None\<rparr>
      | Inr r \<Rightarrow> r)"

section \<open>Route handlers of the mutation service\<close>

record Response =
  statusCode :: nat
  resSuccess :: bool
  resMessage :: string
  resData :: "doc option"
  resToken :: "string option"

text \<open>
  The \<^verbatim>\<open>catch\<close> block shared by the three handlers: an Error with the message
  "Insufficient permissions" is answered with 403, anything else with 500.
\<close>

definition handlerCatch :: "exn \<Rightarrow> Response" where
  "handlerCatch error =
     (if error = Error ''Insufficient permissions''
      then \<lparr>statusCode = 403, resSuccess = False, resMessage = ''Insufficient permissions'',
            resData = None, resToken = None\<rparr>
      else \<lparr>statusCode = 500, resSuccess = False, resMessage = ''Server error'',
            resData = None, resToken = None\<rparr>)"

text \<open>
  Each handler awaits its service inside \<^verbatim>\<open>try\<close>. The outcome of the await is the
  first argument: \<open>Inl\<close> a rejection, \<open>Inr\<close> the value the service returned.
\<close>

definition createUserAdminRespond :: "exn + UserResult \<Rightarrow> Response" where
  "createUserAdminRespond outcome =
     (case outcome of
        Inl error \<Rightarrow> handlerCatch error
      | Inr result \<Rightarrow>
          if \<not> success result
          then \<lparr>statusCode = 400, resSuccess = False, resMessage = message result,
                resData = None, resToken = None\<rparr>
          else \<lparr>statusCode = 201, resSuccess = True, resMessage = message result,
                resData = user result, resToken = token result\<rparr>)"

definition updateUserRespond :: "exn + GetResult \<Rightarrow> Response" where
  "updateUserRespond outcome =
     (case outcome of
        Inl error \<Rightarrow> handlerCatch error
      | Inr result \<Rightarrow>
          if \<not> success result
          then \<lparr>statusCode = 404, resSuccess = False, resMessage = message result,
                resData = None, resToken = None\<rparr>
          else \<lparr>statusCode = 200, resSuccess = True, resMessage = message result,
                resData = found result, resToken = None\<rparr>)"

definition deleteUserRespond :: "exn + Result \<Rightarrow> Response" where
  "deleteUserRespond outcome =
     (case outcome of
        Inl error \<Rightarrow> handlerCatch error
      | Inr result \<Rightarrow>
          if \<not> success result
          then \<lparr>statusCode = 404, resSuccess = False, resMessage = message result,
                resData = None, resToken = None\<rparr>
          else \<lparr>statusCode = 200, resSuccess = True, resMessage = message result,
                resData = None, resToken = None\<rparr>)"

text \<open>
  The handlers on a request: the body, the path parameter and the role of the
  authenticated user. A service returns in both branches of its own \<^verbatim>\<open>try\<close>, so the
  await yields its value.
\<close>

definition createUserAdminHandler ::
  "Env \<Rightarrow> User list \<Rightarrow> CreateUserData \<Rightarrow> Role option \<Rightarrow> User list \<times> Response" where
  "createUserAdminHandler env db body userRole =
     (let (db', result) = createUserAdmin env db body userRole
      in (db', createUserAdminRespond (Inr result)))"

definition updateUserHandler ::
  "Env \<Rightarrow> User list \<Rightarrow> string \<Rightarrow> UpdateUserData \<Rightarrow> Role option \<Rightarrow> User list \<times> Response" where
  "updateUserHandler env db ident body userRole =
     (let (db', result) = updateUser env db ident body userRole
      in (db', updateUserRespond (Inr result)))"

definition deleteUserHandler ::
  "Env \<Rightarrow> User list \<Rightarrow> string \<Rightarrow> Role option \<Rightarrow> User list \<times> Response" where
  "deleteUserHandler env db ident userRole =
     (let (db', result) = deleteUser env db ident userRole
      in (db', deleteUserRespond (Inr result)))"

section \<open>Sample data\<close>

text \<open>Concrete collaborators and records, at which the statements below are evaluated.\<close>

definition demoEnv :: Env where
  "demoEnv =
     \<lparr>bcryptHash = (\<lambda>p. ''hash:'' @ p), bcryptCompare = (\<lambda>p h. h = ''hash:'' @ p),
      jwtSign = (\<lambda>uid. ''jwt:'' @ uid), newId = (\<lambda>db. ''u'' @ replicate (length db) CHR ''+''),
      now = 100\<rparr>"

text \<open>An engine comparison that knows the creation time and leaves other orders as stored.\<close>

definition byCreatedAt :: "json \<Rightarrow> User \<Rightarrow> User \<Rightarrow> bool" where
  "byCreatedAt orderBy a b =
     (if orderBy = JObj [(''createdAt'', JStr ''asc'')] then createdAt a \<le> createdAt b
      else if orderBy = JObj [(''createdAt'', JStr ''desc'')] then createdAt b \<le> createdAt a
      else True)"

definition alice :: User where
  "alice =
     \<lparr>userId = ''u1'', firstName = ''Alice'', lastName = ''Reyes'', middleName = None,
      email = ''alice@x.com'', password = ''hash:pw123456'', role = passenger, status = active,
      avatar = None,
      metadata = Some \<lparr>address = None, phone = Some ''555-0101'', age = Some 31, gender = None\<rparr>,
      isDeleted = False, createdAt = 1, updatedAt = 1\<rparr>"

definition bob :: User where
  "bob =
     \<lparr>userId = ''u2'', firstName = ''Bob'', lastName = ''Cruz'', middleName = Some ''D'',
      email = ''bob@x.com'', password = ''hash:hunter2'', role = driver, status = active,
      avatar = None, metadata = None, isDeleted = True, createdAt = 2, updatedAt = 3\<rparr>"

definition noParams :: Params where
  "noParams =
     \<lparr>page = None, limit = None, sortParam = None, orderParam = None, fieldsParam = None,
      query = None, filters = None\<rparr>"



definition bobAgain :: CreateUserData where
  "bobAgain =
     \<lparr>newEmail = ''bob@x.com'', newFirstName = ''Bob'', newLastName = ''Cruz'',
      newMiddleName = None, newRole = None, newStatus = None, newPassword = ''hunter3'',
      newMetadata = None\<rparr>"

definition noUpdate :: UpdateUserData where
  "noUpdate =
     \<lparr>setFirstName = None, setLastName = None, setMiddleName = None, setEmail = None,
      setRole = None, setStatus = None, setAvatar = None, setPassword = None,
      setMetadata = None\<rparr>"

section \<open>Properties of the projection builder\<close>

text \<open>A split is never empty, so \<^verbatim>\<open>parts[0]\<close> exists for every token.\<close>

lemma splitOn_nonempty: "splitOn c s \<noteq> []"
  by (induction s) (auto split: list.splits)

lemma map_of_ownSet: "map_of (ownSet obj k v) p = (if p = k then Some v else map_of obj p)"
  by (induction obj) auto

lemma getProp_setProp_other: "k \<noteq> p \<Longrightarrow> getProp (setProp obj k v) p = getProp obj p"
  by (simp add: getProp_def setProp_def map_of_ownSet)

lemma getProp_setProp_true:
  "getProp (setProp obj p STrue) p = Some STrue \<or> getProp (setProp obj p STrue) p = Some SInherited"
  by (simp add: getProp_def setProp_def map_of_ownSet)

lemma assignPath_exn: "assignPath cur cs = Inl e \<Longrightarrow> e = TypeError"
  by (induction cur cs arbitrary: e rule: assignPath.induct)
     (auto split: option.splits sel.splits sum.splits simp: map_sum_def)

lemma addField_exn: "addField acc f = Inl e \<Longrightarrow> e = TypeError"
  by (auto simp: addField_def Let_def map_sum_def split: if_splits option.splits sel.splits sum.splits
           dest: assignPath_exn)

lemma reduceFields_exn: "reduceFields acc fs = Inl e \<Longrightarrow> e = TypeError"
  by (induction fs arbitrary: acc) (auto split: sum.splits dest: addField_exn)

lemma addField_single:
  "splitOn CHR ''.'' (trim a) = [p] \<Longrightarrow> addField acc a = Inr (setProp acc p STrue)"
  by (simp add: addField_def)

lemma addField_nested_blocked:
  assumes "getProp acc p = Some STrue \<or> getProp acc p = Some SInherited"
    and "splitOn CHR ''.'' (trim b) = p # c # cs"
  shows "addField acc b = Inl TypeError"
  using assms by (auto simp: addField_def)

lemma addField_keeps_blocked:
  assumes "getProp acc p = Some STrue \<or> getProp acc p = Some SInherited"
    and "addField acc f = Inr acc'"
  shows "getProp acc' p = Some STrue \<or> getProp acc' p = Some SInherited"
proof (cases "length (splitOn CHR ''.'' (trim f)) > 1")
  case True
  let ?parent = "hd (splitOn CHR ''.'' (trim f))"
  have ne: "?parent \<noteq> p"
  proof
    assume "?parent = p"
    with assms True have "addField acc f = Inl TypeError"
      by (auto simp: addField_def Let_def)
    with assms(2) show False by simp
  qed
  from assms(2) True obtain s where "acc' = setProp acc ?parent (SSelect s)"
    by (auto simp: addField_def Let_def map_sum_def split: option.splits sel.splits sum.splits)
  with ne assms(1) show ?thesis by (simp add: getProp_setProp_other)
next
  case False
  with assms(2) have acc': "acc' = setProp acc (hd (splitOn CHR ''.'' (trim f))) STrue"
    by (simp add: addField_def Let_def)
  show ?thesis
  proof (cases "hd (splitOn CHR ''.'' (trim f)) = p")
    case True
    with acc' show ?thesis using getProp_setProp_true [of acc p] by simp
  next
    case False
    with acc' assms(1) show ?thesis by (simp add: getProp_setProp_other)
  qed
qed

lemma reduceFields_blocked:
  assumes "getProp acc p = Some STrue \<or> getProp acc p = Some SInherited"
    and "splitOn CHR ''.'' (trim b) = p # c # cs"
  shows "reduceFields acc (mid @ b # post) = Inl TypeError"
  using assms(1)
proof (induction mid arbitrary: acc)
  case Nil
  then show ?case using addField_nested_blocked [OF _ assms(2)] by simp
next
  case (Cons m mid)
  show ?case
  proof (cases "addField acc m")
    case (Inl e)
    then show ?thesis using addField_exn [OF Inl] by simp
  next
    case (Inr acc')
    then show ?thesis using Cons.IH [OF addField_keeps_blocked [OF Cons.prems Inr]] by simp
  qed
qed

lemma reduceFields_prefix:
  assumes "\<And>acc. reduceFields acc rest = Inl TypeError"
  shows "reduceFields acc (pre @ rest) = Inl TypeError"
proof (induction pre arbitrary: acc)
  case Nil
  then show ?case by (simp add: assms)
next
  case (Cons a pre)
  then show ?case by (cases "addField acc a") (auto dest: addField_exn)
qed

lemma reduceFields_top_then_nested:
  assumes "splitOn CHR ''.'' (trim a) = [p]" and "splitOn CHR ''.'' (trim b) = p # c # cs"
  shows "reduceFields acc (pre @ a # mid @ b # post) = Inl TypeError"
proof (rule reduceFields_prefix)
  fix acc0
  have "addField acc0 a = Inr (setProp acc0 p STrue)" using assms(1) by (rule addField_single)
  then show "reduceFields acc0 (a # mid @ b # post) = Inl TypeError"
    using reduceFields_blocked [OF getProp_setProp_true assms(2), of acc0 mid post] by simp
qed

lemma addField_keeps_id:
  assumes "map_of acc ''id'' = Some STrue" and "addField acc f = Inr acc'"
  shows "map_of acc' ''id'' = Some STrue"
  using assms
  by (auto simp: addField_def Let_def map_sum_def setProp_def map_of_ownSet getProp_def
           split: if_splits option.splits sel.splits sum.splits)

lemma reduceFields_keeps_id:
  "map_of acc ''id'' = Some STrue \<Longrightarrow> reduceFields acc fs = Inr s \<Longrightarrow> map_of s ''id'' = Some STrue"
  by (induction fs arbitrary: acc) (auto split: sum.splits dest: addField_keeps_id)

text \<open>
  Claim C6, as amended. For an absent or empty \<^verbatim>\<open>fields\<close> input the selection is exactly
  \<^verbatim>\<open>{ id: true }\<close>. For every other input on which the builder returns a selection,
  that selection holds \<^verbatim>\<open>id: true\<close> as well, whether or not the caller asked for it:
  the reduction starts from \<^verbatim>\<open>{ id: true }\<close> and no step removes or replaces the entry.
\<close>

theorem fieldSelections_id:
  "(flds = None \<or> flds = Some [] \<longrightarrow> fieldSelections flds = Inr [(''id'', STrue)]) \<and>
   (fieldSelections flds = Inr s \<longrightarrow> map_of s ''id'' = Some STrue)"
proof (intro conjI impI)
  assume "flds = None \<or> flds = Some []"
  then show "fieldSelections flds = Inr [(''id'', STrue)]"
    by (auto simp: fieldSelections_def)
next
  assume r: "fieldSelections flds = Inr s"
  show "map_of s ''id'' = Some STrue"
  proof (cases flds)
    case None
    with r show ?thesis by (auto simp: fieldSelections_def)
  next
    case (Some f)
    show ?thesis
    proof (cases "f = []")
      case True
      with r Some show ?thesis by (auto simp: fieldSelections_def)
    next
      case False
      with r Some have "reduceFields [(''id'', STrue)] (splitOn CHR '','' f) = Inr s"
        by (simp add: fieldSelections_def)
      then show ?thesis by (rule reduceFields_keeps_id [rotated]) simp
    qed
  qed
qed

text \<open>
  The theorem at the empty string and at \<^verbatim>\<open>firstName,metadata.phone\<close>.
\<close>

theorem fieldSelections_id_witness:
  "fieldSelections (Some []) = Inr [(''id'', STrue)] \<and>
   fieldSelections (Some ''firstName,metadata.phone'')
     = Inr [(''id'', STrue), (''firstName'', STrue), (''metadata'', SSelect [(''phone'', STrue)])] \<and>
   map_of [(''id'', STrue), (''firstName'', STrue), (''metadata'', SSelect [(''phone'', STrue)])] ''id''
     = Some STrue"
proof -
  have e: "fieldSelections (Some ''firstName,metadata.phone'')
     = Inr [(''id'', STrue), (''firstName'', STrue), (''metadata'', SSelect [(''phone'', STrue)])]"
    by (simp add: fieldSelections_def addField_def trim_def isSpace_def setProp_def getProp_def
        objectPrototypeKeys_def)
  show ?thesis
    using fieldSelections_id [of "Some []" "[(''id'', STrue)]"]
      fieldSelections_id [of "Some ''firstName,metadata.phone''"
        "[(''id'', STrue), (''firstName'', STrue), (''metadata'', SSelect [(''phone'', STrue)])]"] e
    by simp
qed

text \<open>
  Claim C6 as stated says that \<^verbatim>\<open>id\<close> is included only when the caller requests it.
  The input \<^verbatim>\<open>firstName\<close> does not request it, and the selection holds it.
\<close>

theorem id_injected_counterexample:
  "''id'' \<notin> set (map trim (splitOn CHR '','' ''firstName'')) \<and>
   fieldSelections (Some ''firstName'') = Inr [(''id'', STrue), (''firstName'', STrue)]"
  by (simp add: fieldSelections_def addField_def trim_def isSpace_def setProp_def)

text \<open>
  Claim C10. When the comma-separated list names a top-level field and, later, a dot-path
  whose first segment is that field, the builder throws a TypeError, and getAllUsers and
  getUserById both return the failure result with the message "Server error".
\<close>

theorem nested_after_top_throws:
  assumes "splitOn CHR '','' flds = pre @ a # mid @ b # post"
    and "splitOn CHR ''.'' (trim a) = [p]"
    and "splitOn CHR ''.'' (trim b) = p # c # cs"
  shows "fieldSelections (Some flds) = Inl TypeError \<and>
         getAllUsers jsonParse le db (params\<lparr>fieldsParam := Some flds\<rparr>)
           = \<lparr>success = False, message = ''Server error'', users = None, pagination = None\<rparr> \<and>
         getUserById db ident (Some flds)
           = \<lparr>success = False, message = ''Server error'', found = None\<rparr>"
proof -
  have ne: "flds \<noteq> []" using assms(1) by (cases flds) auto
  have sel: "fieldSelections (Some flds) = Inl TypeError"
    using ne assms(1) reduceFields_top_then_nested [OF assms(2,3)]
    by (simp add: fieldSelections_def)
  have "getAllUsersTry jsonParse le db (params\<lparr>fieldsParam := Some flds\<rparr>) = Inl SyntaxError
      \<or> getAllUsersTry jsonParse le db (params\<lparr>fieldsParam := Some flds\<rparr>) = Inl TypeError"
    using sel by (auto simp: getAllUsersTry_def findManyQuery_def Let_def orderByOf_def split: sum.splits option.splits)
  then have "getAllUsers jsonParse le db (params\<lparr>fieldsParam := Some flds\<rparr>)
           = \<lparr>success = False, message = ''Server error'', users = None, pagination = None\<rparr>"
    by (auto simp: getAllUsers_def)
  moreover have "getUserById db ident (Some flds)
           = \<lparr>success = False, message = ''Server error'', found = None\<rparr>"
    using sel by (simp add: getUserById_def getUserByIdTry_def)
  ultimately show ?thesis using sel by simp
qed

text \<open>
  The theorem at \<^verbatim>\<open>metadata,metadata.phone\<close>.
\<close>

theorem nested_after_top_throws_witness:
  "splitOn CHR '','' ''metadata,metadata.phone'' = [] @ ''metadata'' # [] @ ''metadata.phone'' # [] \<and>
   splitOn CHR ''.'' (trim ''metadata'') = [''metadata''] \<and>
   splitOn CHR ''.'' (trim ''metadata.phone'') = ''metadata'' # ''phone'' # [] \<and>
   fieldSelections (Some ''metadata,metadata.phone'') = Inl TypeError \<and>
   getAllUsers jsonRead byCreatedAt [alice] (noParams\<lparr>fieldsParam := Some ''metadata,metadata.phone''\<rparr>)
     = \<lparr>success = False, message = ''Server error'', users = None, pagination = None\<rparr> \<and>
   getUserById [alice] ''u1'' (Some ''metadata,metadata.phone'')
     = \<lparr>success = False, message = ''Server error'', found = None\<rparr>"
proof -
  have 1: "splitOn CHR '','' ''metadata,metadata.phone'' = [] @ ''metadata'' # [] @ ''metadata.phone'' # []"
    by simp
  have 2: "splitOn CHR ''.'' (trim ''metadata'') = [''metadata'']"
    by (simp add: trim_def isSpace_def)
  have 3: "splitOn CHR ''.'' (trim ''metadata.phone'') = ''metadata'' # ''phone'' # []"
    by (simp add: trim_def isSpace_def)
  show ?thesis
    using nested_after_top_throws [OF 1 2 3, of jsonRead byCreatedAt "[alice]" noParams "''u1''"] 1 2 3
    by simp
qed

section \<open>Properties of JavaScript numbers\<close>

lemma roundEven_of_int: "roundEven (of_int m) = m"
  by (simp add: roundEven_def)

lemma roundEven_le_ceiling: "roundEven q \<le> \<lceil>q\<rceil>"
proof -
  have "\<lfloor>q\<rfloor> \<le> \<lceil>q\<rceil>" by (rule floor_le_ceiling)
  moreover have "q - of_int \<lfloor>q\<rfloor> \<noteq> 0 \<Longrightarrow> \<lfloor>q\<rfloor> + 1 \<le> \<lceil>q\<rceil>"
    by (metis ceiling_altdef eq_iff_diff_eq_0 order_refl)
  ultimately show ?thesis
    by (auto simp add: roundEven_def Let_def)
qed

lemma roundEven_ge: "of_int N + 1 / 2 < q \<Longrightarrow> N + 1 \<le> roundEven q"
proof -
  assume h: "of_int N + 1 / 2 < q"
  have "of_int N \<le> q" using h by simp
  then have fl: "N \<le> \<lfloor>q\<rfloor>" by (simp add: le_floor_iff)
  show ?thesis
  proof (cases "N = \<lfloor>q\<rfloor>")
    case True
    then have "1 / 2 < q - of_int \<lfloor>q\<rfloor>" using h by simp
    then show ?thesis using True by (simp add: roundEven_def Let_def)
  next
    case False
    then have "N + 1 \<le> \<lfloor>q\<rfloor>" using fl by simp
    then show ?thesis by (auto simp add: roundEven_def Let_def)
  qed
qed

lemma upShift_le: "upShift x \<le> 1074"
  unfolding upShift_def using length_takeWhile_le [of _ "[0..<1074]"] by (metis length_upt diff_zero)

lemma upShift_reached: "upShift x < 1074 \<Longrightarrow> 2 ^ 52 \<le> x * 2 ^ upShift x"
proof -
  assume h: "upShift x < 1074"
  let ?P = "\<lambda>s. x * 2 ^ s < (2 ^ 52 :: rat)"
  have "length (takeWhile ?P [0..<1074]) < length [0..<1074]"
    using h by (simp add: upShift_def)
  then have "\<not> ?P ([0..<1074] ! length (takeWhile ?P [0..<1074]))"
    by (rule nth_length_takeWhile)
  then show ?thesis using h by (simp add: upShift_def)
qed

text \<open>An integer below \<open>2 ^ 53\<close> in absolute value is a double.\<close>

lemma toDouble_of_int:
  assumes "\<bar>n\<bar> < 2 ^ 53"
  shows "toDouble (of_int n) = Num (of_int n)"
proof -
  have pos: "roundPos (of_int m) = Num (of_int m)" if "0 < m" "m < 2 ^ 53" for m :: int
  proof -
    have "(of_int m :: rat) < of_int (2 ^ 53)" using that by (simp only: of_int_less_iff)
    then have lt: "(of_int m :: rat) < 2 ^ 53" by simp
    have "(of_int m :: rat) * 2 ^ s = of_int (m * 2 ^ s)" for s by simp
    then have "roundEven (of_int m * 2 ^ s) = m * 2 ^ s" for s
      by (simp only: roundEven_of_int)
    then show ?thesis using lt by (simp add: roundPos_def Let_def)
  qed
  show ?thesis
  proof (cases "n = 0")
    case True then show ?thesis by (simp add: toDouble_def)
  next
    case False
    show ?thesis
    proof (cases "0 < n")
      case True
      then show ?thesis using pos [of n] assms by (simp add: toDouble_def)
    next
      case neg: False
      then have "0 < - n" "- n < 2 ^ 53" using False assms by auto
      then have "roundPos (of_int (- n)) = Num (of_int (- n))" by (rule pos)
      then show ?thesis using neg False by (simp add: toDouble_def jsNeg_def)
    qed
  qed
qed


lemma jsAdd_int:
  "\<bar>a + b\<bar> < 2 ^ 53 \<Longrightarrow> jsAdd (Num (of_int a)) (Num (of_int b)) = Num (of_int (a + b))"
  using toDouble_of_int [of "a + b"] by simp

lemma jsSub_int:
  "\<bar>a - b\<bar> < 2 ^ 53 \<Longrightarrow> jsSub (Num (of_int a)) (Num (of_int b)) = Num (of_int (a - b))"
  using toDouble_of_int [of "a - b"] by (simp add: jsSub_def jsNeg_def)


lemma asInt_of_int: "asInt (Num (of_int n)) = Some n"
  by (simp add: asInt_def)

text \<open>
  The quotient of a count by a limit, rounded to a double and then up to an integer, is
  the ceiling of the exact quotient.
\<close>

lemma ceil_toDouble_div:
  assumes t: "0 \<le> t" "t < 2 ^ 53" and l: "1 \<le> l" "l < 2 ^ 53"
  shows "jsCeil (toDouble (of_int t / of_int l)) = Num (of_int \<lceil>(of_int t / of_int l :: rat)\<rceil>)"
proof (cases "t = 0")
  case True then show ?thesis by (simp add: toDouble_def jsCeil_def)
next
  case False
  define x :: rat where "x = of_int t / of_int l"
  define c where "c = \<lceil>x\<rceil>"
  define s where "s = upShift x"
  define m where "m = roundEven (x * 2 ^ s)"
  have tpos: "0 < t" using False t by simp
  have lpos: "(0::rat) < of_int l" using l by simp
  have xpos: "0 < x" unfolding x_def using tpos lpos by simp
  have "(of_int t :: rat) < of_int (2 ^ 53)" using t by (simp only: of_int_less_iff)
  then have tlt: "(of_int t :: rat) < 2 ^ 53" by simp
  have "(of_int l :: rat) < of_int (2 ^ 53)" using l by (simp only: of_int_less_iff)
  then have llt: "(of_int l :: rat) < 2 ^ 53" by simp
  have "x \<le> of_int t" unfolding x_def using l tpos
    by (simp add: divide_le_eq mult_le_cancel_left1)
  then have xlt: "x < 2 ^ 53" using tlt by simp
  have res: "toDouble x = Num (of_int m / 2 ^ s)"
    using xpos xlt by (simp add: toDouble_def roundPos_def Let_def m_def s_def)
  have p2: "(0::rat) < 2 ^ s" by simp
  have xc: "x \<le> of_int c" unfolding c_def by (rule le_of_int_ceiling)
  have upper: "m \<le> c * 2 ^ s"
  proof -
    have "x * 2 ^ s \<le> of_int c * 2 ^ s" using xc by simp
    then have "x * 2 ^ s \<le> of_int (c * 2 ^ s)" by simp
    then have "\<lceil>x * 2 ^ s\<rceil> \<le> c * 2 ^ s" by (simp only: ceiling_le_iff)
    then show ?thesis using roundEven_le_ceiling [of "x * 2 ^ s"] by (simp add: m_def)
  qed
  have "of_int (c - 1) < x" unfolding c_def using ceiling_correct [of x] by simp
  then have "of_int (c - 1) * of_int l < (of_int t :: rat)" unfolding x_def using lpos
    by (simp add: pos_less_divide_eq)
  then have "(of_int ((c - 1) * l) :: rat) < of_int t" by simp
  then have "(c - 1) * l < t" by (simp only: of_int_less_iff)
  then have "(c - 1) * l + 1 \<le> t" by simp
  then have "(of_int ((c - 1) * l + 1) :: rat) \<le> of_int t" by (simp only: of_int_le_iff)
  then have "of_int (c - 1) * of_int l + 1 \<le> (of_int t :: rat)" by simp
  then have "(of_int (c - 1) * of_int l + 1) / of_int l \<le> x" unfolding x_def using lpos
    by (simp add: divide_right_mono)
  then have gap: "of_int (c - 1) + 1 / of_int l \<le> x" using lpos
    by (simp add: add_divide_distrib)
  have big: "of_int l < (2::rat) * 2 ^ s"
  proof (cases "s < 1074")
    case True
    then have "2 ^ 52 \<le> x * 2 ^ s" unfolding s_def by (rule upShift_reached)
    then have "(2 ^ 52 :: rat) * of_int l \<le> of_int t * 2 ^ s" unfolding x_def using lpos
      by (simp add: pos_le_divide_eq mult.commute)
    moreover have "of_int t * 2 ^ s < (2 ^ 53 :: rat) * 2 ^ s"
      using tlt p2 by (rule mult_strict_right_mono)
    ultimately have "(2 ^ 52 :: rat) * of_int l < 2 ^ 53 * 2 ^ s" by (rule le_less_trans)
    moreover have "(2 ^ 53 :: rat) * 2 ^ s = 2 ^ 52 * (2 * 2 ^ s)" by simp
    ultimately have "(2 ^ 52 :: rat) * of_int l < 2 ^ 52 * (2 * 2 ^ s)" by (simp only:)
    then show ?thesis by (rule mult_left_less_imp_less) simp
  next
    case False
    then have "53 \<le> s" using upShift_le [of x] by (simp add: s_def)
    then have "(2::rat) ^ 53 \<le> 2 ^ s" by (rule power_increasing) simp
    then have "of_int l < (2::rat) ^ s" using llt by (rule less_le_trans [rotated])
    moreover have "(2::rat) ^ s \<le> 2 * 2 ^ s" by simp
    ultimately show ?thesis by (rule less_le_trans)
  qed
  have lower: "(c - 1) * 2 ^ s + 1 \<le> m"
  proof -
    have "1 / of_int l * 2 ^ s > (1 / 2 :: rat)" using big lpos
      by (simp add: pos_less_divide_eq)
    moreover have "(of_int (c - 1) + 1 / of_int l) * 2 ^ s \<le> x * 2 ^ s" using gap by simp
    ultimately have "of_int ((c - 1) * 2 ^ s) + 1 / 2 < x * 2 ^ s"
      by (simp add: algebra_simps)
    then show ?thesis unfolding m_def by (rule roundEven_ge)
  qed
  have "(of_int m :: rat) \<le> of_int (c * 2 ^ s)" using upper by (simp only: of_int_le_iff)
  then have u: "(of_int m :: rat) / 2 ^ s \<le> of_int c" by (simp add: pos_divide_le_eq)
  have "(of_int ((c - 1) * 2 ^ s) :: rat) < of_int m" using lower by (simp only: of_int_less_iff)
  then have lo: "of_int (c - 1) < (of_int m :: rat) / 2 ^ s" by (simp add: pos_less_divide_eq)
  have "\<lceil>(of_int m :: rat) / 2 ^ s\<rceil> = c"
    using u lo by (simp add: ceiling_unique)
  then show ?thesis using res by (simp add: jsCeil_def x_def [symmetric] c_def)
qed

lemma totalPages_int:
  assumes "0 \<le> t" "t < 2 ^ 53" "1 \<le> l" "l < 2 ^ 53"
  shows "jsCeil (jsDiv (Num (of_int t)) (Num (of_int l)))
           = Num (of_int \<lceil>(of_int t / of_int l :: rat)\<rceil>)"
  using ceil_toDouble_div [OF assms] assms(3) by simp

lemma totalPages_div:
  assumes "0 \<le> t" "t < 2 ^ 53" "1 \<le> l" "l < 2 ^ 53"
  shows "jsCeil (jsDiv (Num (of_int t)) (Num (of_int l))) = Num (of_int (- ((- t) div l)))"
  unfolding totalPages_int [OF assms] by (simp only: ceiling_divide_eq_div)

text \<open>
  From here on the operators are unfolded only where a proof asks for it.
\<close>

declare jsAdd.simps [simp del] jsMul.simps [simp del] jsDiv.simps [simp del]
  jsLess.simps [simp del]

text \<open>The numbers of the first page of ten, as the examples below meet them.\<close>

lemma js_small:
  "jsSub (Num 1) (Num 1) = Num 0"
  "jsMul (Num 0) (Num y) = Num 0"
  "jsAdd (Num 0) (Num 10) = Num 10"
  "asInt (Num 0) = Some 0"
  "asInt (Num 10) = Some 10"
  "toDouble 0 = Num 0"
  "toDouble 1 = Num 1"
  "jsCeil (jsDiv (Num 0) (Num 10)) = Num 0"
  "jsCeil (jsDiv (Num 1) (Num 10)) = Num 1"
  "jsLess (Num x) (Num z) = (x < z)"
proof -
  show "jsSub (Num 1) (Num 1) = Num 0" using jsSub_int [of 1 1] by simp
  show "jsMul (Num 0) (Num y) = Num 0" by (simp add: jsMul.simps toDouble_def)
  show "jsAdd (Num 0) (Num 10) = Num 10" using jsAdd_int [of 0 10] by simp
  show "asInt (Num 0) = Some 0" using asInt_of_int [of 0] by simp
  show "asInt (Num 10) = Some 10" using asInt_of_int [of 10] by simp
  show "toDouble 0 = Num 0" by (simp add: toDouble_def)
  show "toDouble 1 = Num 1" using toDouble_of_int [of 1] by simp
  show "jsCeil (jsDiv (Num 0) (Num 10)) = Num 0" using totalPages_div [of 0 10] by simp
  show "jsCeil (jsDiv (Num 1) (Num 10)) = Num 1" using totalPages_div [of 1 10] by simp
  show "jsLess (Num x) (Num z) = (x < z)" by (simp add: jsLess.simps)
qed

section \<open>Properties of the listing and retrieval service\<close>

lemmas eval_defs =
  getAllUsers_def getAllUsersTry_def findManyQuery_def getUserById_def getUserByIdTry_def fieldSelections_def
  addField_def trim_def isSpace_def setProp_def getProp_def objectPrototypeKeys_def
  orderByOf_def whereClause_def spread_def findMany_def window_def sortBy_def count_def
  findUnique_def matchesWhere_def userDoc_def metadataDoc_def optStr_def js_small
  noParams_def alice_def bob_def startsWith_def searchFields_def

text \<open>
  Claim C1 says that no value of \<^verbatim>\<open>fields\<close> makes the list or the get-by-id
  operation return the \<^verbatim>\<open>password\<close> field. The code at \<^verbatim>\<open>fields = "password"\<close>:
  the selection holds \<^verbatim>\<open>password: true\<close>, and both operations return the stored hash.
\<close>

theorem password_is_projected:
  "getAllUsers jsonParse le [alice] (noParams\<lparr>fieldsParam := Some ''password''\<rparr>)
     = \<lparr>success = True, message = ''Users retrieved successfully'',
        users = Some [[(''id'', VStr ''u1''), (''password'', VStr ''hash:pw123456'')]],
        pagination = Some \<lparr>pgTotal = Num 1, pgPage = Num 1, pgLimit = Num 10, totalPages = Num 1,
                            hasMore = False\<rparr>\<rparr> \<and>
   getUserById [alice] ''u1'' (Some ''password'')
     = \<lparr>success = True, message = ''User retrieved successfully'',
        found = Some [(''id'', VStr ''u1''), (''password'', VStr ''hash:pw123456'')]\<rparr>"
  by (simp add: eval_defs Let_def)


lemma set_insertBy: "set (insertBy le x xs) = insert x (set xs)"
  by (induction xs) auto


lemma set_sortBy: "set (sortBy le xs) = set xs"
  by (induction xs) (auto simp: sortBy_def set_insertBy)














section \<open>Properties of the dynamic filters and the where-clause\<close>

lemma startsWith_append: "startsWith (p @ r) p"
  by (simp add: startsWith_def)

lemma startsWith_decompose: "startsWith key p \<Longrightarrow> key = p @ drop (length p) key"
  by (metis append_take_drop_id startsWith_def)

lemma replaceFirst_prefix: "startsWith key pat \<Longrightarrow> replaceFirst pat [] key = drop (length pat) key"
  by (cases key) (auto simp: startsWith_def)

lemma keys_ownSet_list:
  "map fst (ownSet obj k v) = (if k \<in> fst ` set obj then map fst obj else map fst obj @ [k])"
  by (induction obj) (fastforce simp: image_iff)+

lemma distinct_ownSet: "distinct (map fst obj) \<Longrightarrow> distinct (map fst (ownSet obj k v))"
  by (simp add: keys_ownSet_list)

lemma distinct_setProp: "distinct (map fst obj) \<Longrightarrow> distinct (map fst (setProp obj k v))"
  by (simp add: setProp_def distinct_ownSet)

lemma map_of_setProp:
  "map_of (setProp obj k v) p = (if p = k \<and> k \<noteq> ''__proto__'' then Some v else map_of obj p)"
  by (simp add: setProp_def map_of_ownSet)

lemma filterStep_distinct: "distinct (map fst acc) \<Longrightarrow> distinct (map fst (filterStep q acc key))"
  by (auto simp: filterStep_def Let_def distinct_setProp split: option.splits qval.splits)

lemma prefix_eq_drop: "startsWith key p \<Longrightarrow> (key = p @ f \<longleftrightarrow> drop (length p) key = f)"
  using startsWith_decompose [of key p] by (metis append_eq_conv_conj)

lemma filterStep_lookup:
  "map_of (filterStep q acc key) f =
     (if key = ''filter_'' @ f \<and> f \<noteq> ''__proto__'' \<and>
         (\<exists>s. map_of q key = Some (QString s) \<and> s \<noteq> [])
      then (case map_of q key of Some (QString s) \<Rightarrow> Some (VStr s) | _ \<Rightarrow> None)
      else map_of acc f)"
proof -
  define p where "p = ''filter_''"
  show ?thesis
  proof (cases "startsWith key p")
    case True
    have rf: "replaceFirst p [] key = drop (length p) key" using replaceFirst_prefix [OF True] .
    have eq: "key = p @ f \<longleftrightarrow> drop (length p) key = f" using prefix_eq_drop [OF True] .
    show ?thesis
      unfolding filterStep_def p_def [symmetric]
      using True eq
      by (auto simp: Let_def rf map_of_setProp split: option.splits qval.splits)
  next
    case False
    then have "key \<noteq> p @ f" using startsWith_append [of p f] by auto
    with False show ?thesis unfolding filterStep_def p_def [symmetric] by simp
  qed
qed

lemma foldl_filterStep_distinct:
  "distinct (map fst acc) \<Longrightarrow> distinct (map fst (foldl (filterStep q) acc ks))"
  by (induction ks arbitrary: acc) (auto simp: filterStep_distinct)

lemma foldl_filterStep_lookup:
  "map_of (foldl (filterStep q) acc ks) f =
     (if ''filter_'' @ f \<in> set ks \<and> f \<noteq> ''__proto__'' \<and>
         (\<exists>s. map_of q (''filter_'' @ f) = Some (QString s) \<and> s \<noteq> [])
      then (case map_of q (''filter_'' @ f) of Some (QString s) \<Rightarrow> Some (VStr s) | _ \<Rightarrow> None)
      else map_of acc f)"
proof (induction ks arbitrary: acc)
  case Nil
  then show ?case by simp
next
  case (Cons k ks)
  show ?case
    unfolding foldl_Cons Cons.IH filterStep_lookup by auto
qed

lemma distinct_buildFilters: "distinct (map fst (buildFilters q))"
  by (simp add: buildFilters_def foldl_filterStep_distinct)

lemma buildFilters_lookup:
  "map_of (buildFilters q) f =
     (case map_of q (''filter_'' @ f) of
        Some (QString s) \<Rightarrow> if s \<noteq> [] \<and> f \<noteq> ''__proto__'' then Some (VStr s) else None
      | _ \<Rightarrow> None)"
proof -
  have "map_of q (''filter_'' @ f) \<noteq> None \<Longrightarrow> ''filter_'' @ f \<in> set (map fst q)"
    by (metis map_of_eq_None_iff set_map)
  then show ?thesis
    unfolding buildFilters_def foldl_filterStep_lookup
    by (auto split: option.splits qval.splits)
qed

lemma map_of_spread:
  "map_of (spread base extra) k =
     (case map_of (rev extra) k of None \<Rightarrow> map_of base k | Some v \<Rightarrow> Some v)"
proof (induction extra arbitrary: base)
  case Nil
  then show ?case by (simp add: spread_def)
next
  case (Cons e es)
  obtain k' v' where e: "e = (k', v')" by (cases e)
  have "spread base (e # es) = spread (ownSet base k' v') es"
    by (simp add: spread_def e)
  then show ?case
    using Cons.IH [of "ownSet base k' v'"]
    by (auto simp: e map_of_ownSet map_add_def split: option.splits)
qed

lemma distinct_spread: "distinct (map fst base) \<Longrightarrow> distinct (map fst (spread base extra))"
proof (induction extra arbitrary: base)
  case Nil
  then show ?case by (simp add: spread_def)
next
  case (Cons e es)
  obtain k' v' where e: "e = (k', v')" by (cases e)
  have "spread base (e # es) = spread (ownSet base k' v') es"
    by (simp add: spread_def e)
  then show ?case using Cons.IH [OF distinct_ownSet [OF Cons.prems]] by simp
qed

lemma matchesWhere_iff:
  assumes "distinct (map fst w)"
  shows "matchesWhere w u \<longleftrightarrow> (\<forall>k c. map_of w k = Some c \<longrightarrow> condHolds (userDoc u) k c)"
  using assms by (auto simp: matchesWhere_def list_all_iff)

lemma distinct_whereClause: "distinct (map fst (whereClause qs fs))"
  by (auto simp: whereClause_def intro!: distinct_spread split: option.splits)

lemma map_of_rev_distinct: "distinct (map fst xs) \<Longrightarrow> map_of (rev xs) = map_of xs"
proof (induction xs)
  case Nil
  then show ?case by simp
next
  case (Cons x xs)
  obtain k v where x: "x = (k, v)" by (cases x)
  have "k \<notin> dom (map_of xs)" using Cons.prems by (simp add: x dom_map_of_conv_image_fst)
  then have "map_of xs k = None" by blast
  with Cons show ?case by (auto simp: x fun_eq_iff map_add_def split: option.splits)
qed

lemma map_of_Equals:
  "map_of (map (\<lambda>(k, v). (k, Equals v)) fs) k = map_option Equals (map_of fs k)"
  by (induction fs) auto

lemma map_of_whereClause:
  assumes "distinct (map fst fs)"
  shows "map_of (whereClause qs (Some fs)) k =
     (case map_of fs k of
        Some v \<Rightarrow> Some (Equals v)
      | None \<Rightarrow>
          if k = ''OR'' \<and> (\<exists>s. qs = Some s \<and> s \<noteq> []) then Some (AnyContains searchFields (the qs))
          else if k = ''isDeleted'' then Some (Equals (VBool False))
          else None)"
proof -
  have d: "distinct (map fst (map (\<lambda>(k, v). (k, Equals v)) fs))"
    using assms by (simp add: comp_def case_prod_unfold)
  show ?thesis
    unfolding whereClause_def map_of_spread
    by (auto simp: map_of_rev_distinct [OF d] map_of_Equals split: option.splits)
qed

lemma whereClause_None: "whereClause qs None = whereClause qs (Some [])"
  by (simp add: whereClause_def)

lemma search_cond:
  "condHolds (userDoc u) k (AnyContains searchFields s) \<longleftrightarrow>
     containsInsensitive (firstName u) s \<or> containsInsensitive (lastName u) s \<or>
     (case middleName u of None \<Rightarrow> False | Some m \<Rightarrow> containsInsensitive m s) \<or>
     containsInsensitive (email u) s"
  by (auto simp: searchFields_def userDoc_def optStr_def split: option.splits)

lemma matchesWhere_filters:
  assumes d: "distinct (map fst fs)"
    and str: "\<And>k v. map_of fs k = Some v \<Longrightarrow> \<exists>s. v = VStr s"
  shows "matchesWhere (whereClause qs (Some fs)) u \<longleftrightarrow>
     \<not> isDeleted u \<and>
     (\<forall>s. qs = Some s \<and> s \<noteq> [] \<longrightarrow> condHolds (userDoc u) ''OR'' (AnyContains searchFields s)) \<and>
     (\<forall>f v. map_of fs f = Some v \<longrightarrow> map_of (userDoc u) f = Some v)"
    (is "?L \<longleftrightarrow> ?D \<and> ?S \<and> ?F")
proof
  assume ?L
  then have all: "\<And>k c. map_of (whereClause qs (Some fs)) k = Some c \<Longrightarrow> condHolds (userDoc u) k c"
    by (simp add: matchesWhere_iff [OF distinct_whereClause])
  have f: ?F
  proof (intro allI impI)
    fix f v assume "map_of fs f = Some v"
    then have "map_of (whereClause qs (Some fs)) f = Some (Equals v)"
      by (simp add: map_of_whereClause [OF d])
    from all [OF this] show "map_of (userDoc u) f = Some v" by simp
  qed
  have nd: "map_of fs ''isDeleted'' = None"
  proof (cases "map_of fs ''isDeleted''")
    case (Some v)
    with str obtain s where "v = VStr s" by blast
    with f Some have "map_of (userDoc u) ''isDeleted'' = Some (VStr s)" by blast
    then show ?thesis by (simp add: userDoc_def)
  qed simp
  have no: "map_of fs ''OR'' = None"
  proof (cases "map_of fs ''OR''")
    case (Some v)
    with f have "map_of (userDoc u) ''OR'' = Some v" by blast
    then show ?thesis by (simp add: userDoc_def)
  qed simp
  have "map_of (whereClause qs (Some fs)) ''isDeleted'' = Some (Equals (VBool False))"
    by (simp add: map_of_whereClause [OF d] nd)
  from all [OF this] have ?D by (simp add: userDoc_def)
  moreover have ?S
  proof (intro allI impI)
    fix s assume "qs = Some s \<and> s \<noteq> []"
    then have "map_of (whereClause qs (Some fs)) ''OR'' = Some (AnyContains searchFields s)"
      by (simp add: map_of_whereClause [OF d] no)
    from all [OF this] show "condHolds (userDoc u) ''OR'' (AnyContains searchFields s)" .
  qed
  ultimately show "?D \<and> ?S \<and> ?F" using f by blast
next
  assume r: "?D \<and> ?S \<and> ?F"
  have "condHolds (userDoc u) k c" if "map_of (whereClause qs (Some fs)) k = Some c" for k c
  proof (cases "map_of fs k")
    case (Some v)
    with that have "c = Equals v" by (simp add: map_of_whereClause [OF d])
    with r Some show ?thesis by simp
  next
    case None
    show ?thesis
    proof (cases "k = ''OR'' \<and> (\<exists>s. qs = Some s \<and> s \<noteq> [])")
      case True
      then obtain s where s: "qs = Some s" "s \<noteq> []" by blast
      with True None that have "c = AnyContains searchFields s"
        by (simp add: map_of_whereClause [OF d])
      with r s True show ?thesis by blast
    next
      case False
      with None that have "k = ''isDeleted'' \<and> c = Equals (VBool False)"
        by (auto simp: map_of_whereClause [OF d] split: if_splits)
      with r show ?thesis by (simp add: userDoc_def)
    qed
  qed
  then show ?L by (simp add: matchesWhere_iff [OF distinct_whereClause])
qed

lemma buildFilters_strings: "map_of (buildFilters q) k = Some v \<Longrightarrow> \<exists>s. v = VStr s"
  by (auto simp: buildFilters_lookup split: option.splits qval.splits if_splits)

text \<open>
  Claim C8, as amended. The filter object of the list handler binds a field name to a
  value exactly when the query holds the parameter \<^verbatim>\<open>filter_\<close> followed by that name
  with a non-empty string value (the name \<^verbatim>\<open>__proto__\<close> excepted, which assignment
  cannot make an own property); a parameter with an array, an object or an empty string
  as its value is left out, and nothing is raised. A record satisfies the where-clause
  built from these filters exactly when it is not soft-deleted, satisfies the free-text
  search when a query is given, and has every accepted filter value in the named field.
\<close>

theorem filters_anded:
  "map_of (buildFilters q) f =
     (case map_of q (''filter_'' @ f) of
        Some (QString s) \<Rightarrow> if s \<noteq> [] \<and> f \<noteq> ''__proto__'' then Some (VStr s) else None
      | _ \<Rightarrow> None) \<and>
   (matchesWhere (whereClause qs (filtersParam q)) u \<longleftrightarrow>
      \<not> isDeleted u \<and>
      (\<forall>s. qs = Some s \<and> s \<noteq> [] \<longrightarrow>
         containsInsensitive (firstName u) s \<or> containsInsensitive (lastName u) s \<or>
         (case middleName u of None \<Rightarrow> False | Some m \<Rightarrow> containsInsensitive m s) \<or>
         containsInsensitive (email u) s) \<and>
      (\<forall>g s. map_of q (''filter_'' @ g) = Some (QString s) \<and> s \<noteq> [] \<and> g \<noteq> ''__proto__''
         \<longrightarrow> map_of (userDoc u) g = Some (VStr s)))"
proof (intro conjI)
  show "map_of (buildFilters q) f =
     (case map_of q (''filter_'' @ f) of
        Some (QString s) \<Rightarrow> if s \<noteq> [] \<and> f \<noteq> ''__proto__'' then Some (VStr s) else None
      | _ \<Rightarrow> None)"
    by (rule buildFilters_lookup)
next
  have w: "whereClause qs (filtersParam q) = whereClause qs (Some (buildFilters q))"
    by (auto simp: filtersParam_def Let_def whereClause_None)
  have l: "(\<forall>g v. map_of (buildFilters q) g = Some v \<longrightarrow> map_of (userDoc u) g = Some v) \<longleftrightarrow>
       (\<forall>g s. map_of q (''filter_'' @ g) = Some (QString s) \<and> s \<noteq> [] \<and> g \<noteq> ''__proto__''
          \<longrightarrow> map_of (userDoc u) g = Some (VStr s))"
    unfolding buildFilters_lookup by (auto split: option.splits qval.splits if_splits)
  show "matchesWhere (whereClause qs (filtersParam q)) u \<longleftrightarrow>
       \<not> isDeleted u \<and>
       (\<forall>s. qs = Some s \<and> s \<noteq> [] \<longrightarrow>
          containsInsensitive (firstName u) s \<or> containsInsensitive (lastName u) s \<or>
          (case middleName u of None \<Rightarrow> False | Some m \<Rightarrow> containsInsensitive m s) \<or>
          containsInsensitive (email u) s) \<and>
       (\<forall>g s. map_of q (''filter_'' @ g) = Some (QString s) \<and> s \<noteq> [] \<and> g \<noteq> ''__proto__''
          \<longrightarrow> map_of (userDoc u) g = Some (VStr s))"
  proof -
    have m: "matchesWhere (whereClause qs (Some (buildFilters q))) u \<longleftrightarrow>
       \<not> isDeleted u \<and>
       (\<forall>s. qs = Some s \<and> s \<noteq> [] \<longrightarrow> condHolds (userDoc u) ''OR'' (AnyContains searchFields s)) \<and>
       (\<forall>g v. map_of (buildFilters q) g = Some v \<longrightarrow> map_of (userDoc u) g = Some v)"
      by (rule matchesWhere_filters [OF distinct_buildFilters]) (rule buildFilters_strings)
    show ?thesis unfolding w m l search_cond ..
  qed
qed

text \<open>
  The theorem at a query with two string filters, an array-valued filter and a parameter
  that is no filter, for a search text and a live record that satisfy all of them.
\<close>

theorem filters_anded_witness:
  "map_of (buildFilters [(''filter_role'', QString ''passenger''), (''filter_status'', QString ''active''),
       (''filter_tags'', QArray [QString ''a'', QString ''b'']), (''page'', QString ''1'')]) ''role''
     = Some (VStr ''passenger'') \<and>
   map_of (buildFilters [(''filter_role'', QString ''passenger''), (''filter_status'', QString ''active''),
       (''filter_tags'', QArray [QString ''a'', QString ''b'']), (''page'', QString ''1'')]) ''tags''
     = None \<and>
   matchesWhere (whereClause (Some ''ali'')
     (filtersParam [(''filter_role'', QString ''passenger''), (''filter_status'', QString ''active''),
       (''filter_tags'', QArray [QString ''a'', QString ''b'']), (''page'', QString ''1'')])) alice"
proof -
  let ?q = "[(''filter_role'', QString ''passenger''), (''filter_status'', QString ''active''),
       (''filter_tags'', QArray [QString ''a'', QString ''b'']), (''page'', QString ''1'')]"
  have c: "containsInsensitive (firstName alice) ''ali''"
    by code_simp
  show ?thesis
    using filters_anded [of ?q "''role''" "Some ''ali''" alice]
      filters_anded [of ?q "''tags''" "Some ''ali''" alice] c
    by (simp add: alice_def userDoc_def)
qed

text \<open>
  Claim C8 as stated accepts every \<^verbatim>\<open>filter_\<close> parameter whose value is a string. The
  empty string is a string, and the handler drops it.
\<close>

theorem empty_filter_dropped_counterexample:
  "buildFilters [(''filter_role'', QString [])] = [] \<and>
   filtersParam [(''filter_role'', QString [])] = None"
  by (simp add: buildFilters_def filtersParam_def filterStep_def startsWith_def)

text \<open>
  The service spreads \<^verbatim>\<open>filters\<close> over the fixed \<^verbatim>\<open>isDeleted: false\<close>. A filter object
  with the boolean \<^verbatim>\<open>isDeleted: true\<close>, which no \<^verbatim>\<open>filter_*\<close> parameter of the list
  handler produces (their values are strings), makes the where-clause ask for deleted
  records.
\<close>

lemma boolean_filter_overrides_isDeleted:
  "isDeleted bob \<and>
   getAllUsers jsonParse le [alice, bob]
       (noParams\<lparr>fieldsParam := Some ''email'', filters := Some [(''isDeleted'', VBool True)]\<rparr>)
     = \<lparr>success = True, message = ''Users retrieved successfully'',
        users = Some [[(''id'', VStr ''u2''), (''email'', VStr ''bob@x.com'')]],
        pagination = Some \<lparr>pgTotal = Num 1, pgPage = Num 1, pgLimit = Num 10,
                            totalPages = Num 1, hasMore = False\<rparr>\<rparr>"
  by (simp add: eval_defs Let_def)

text \<open>
  With the filters the list handler builds from the \<^verbatim>\<open>filter_*\<close> parameters, every
  record that the where-clause admits is live.
\<close>

lemma matchesWhere_live:
  assumes "distinct (map fst fs)" and "\<And>k v. map_of fs k = Some v \<Longrightarrow> \<exists>s. v = VStr s"
    and "matchesWhere (whereClause qs (Some fs)) u"
  shows "\<not> isDeleted u"
proof -
  have "matchesWhere (whereClause qs (Some fs)) u \<longleftrightarrow>
     \<not> isDeleted u \<and>
     (\<forall>s. qs = Some s \<and> s \<noteq> [] \<longrightarrow> condHolds (userDoc u) ''OR'' (AnyContains searchFields s)) \<and>
     (\<forall>f v. map_of fs f = Some v \<longrightarrow> map_of (userDoc u) f = Some v)"
    by (rule matchesWhere_filters [OF assms(1)]) (rule assms(2))
  with assms(3) show ?thesis by blast
qed

lemma filter_live_matching:
  assumes "\<And>u. P u \<Longrightarrow> \<not> isDeleted u"
  shows "filter P (filter (\<lambda>x. \<not> isDeleted x) db) = filter P db"
  using assms by (induction db) auto

lemma find_live_matching:
  assumes "\<And>u. P u \<Longrightarrow> \<not> isDeleted u"
  shows "find P (filter (\<lambda>x. \<not> isDeleted x) db) = find P db"
  using assms by (induction db) auto

lemma string_filters_hide_deleted:
  assumes "filters params = filtersParam q"
  shows "getAllUsers jsonParse le (filter (\<lambda>x. \<not> isDeleted x) db) params
           = getAllUsers jsonParse le db params"
proof -
  have w: "whereClause (query params) (filters params)
      = whereClause (query params) (Some (buildFilters q))"
    using assms by (auto simp: filtersParam_def Let_def whereClause_None)
  have live: "\<not> isDeleted u" if "matchesWhere (whereClause (query params) (filters params)) u" for u
    using that unfolding w
    by (rule matchesWhere_live [OF distinct_buildFilters buildFilters_strings, rotated])
  have f: "filter (matchesWhere (whereClause (query params) (filters params)))
             (filter (\<lambda>x. \<not> isDeleted x) db)
         = filter (matchesWhere (whereClause (query params) (filters params))) db"
    using live by (rule filter_live_matching)
  have q: "whereArg qy = whereClause (query params) (filters params)"
    if "findManyQuery jsonParse params = Inr qy" for qy
    using that by (auto simp: findManyQuery_def Let_def split: sum.splits)
  have fm: "findMany le (filter (\<lambda>x. \<not> isDeleted x) db) qy = findMany le db qy"
    if "findManyQuery jsonParse params = Inr qy" for qy
    unfolding findMany_def q [OF that] f ..
  have ct: "count (filter (\<lambda>x. \<not> isDeleted x) db) (whereArg qy) = count db (whereArg qy)"
    if "findManyQuery jsonParse params = Inr qy" for qy
    unfolding count_def q [OF that] f ..
  have "getAllUsersTry jsonParse le (filter (\<lambda>x. \<not> isDeleted x) db) params
      = getAllUsersTry jsonParse le db params"
  proof (cases "findManyQuery jsonParse params")
    case (Inl e)
    then show ?thesis by (simp add: getAllUsersTry_def)
  next
    case (Inr qy)
    show ?thesis
      unfolding getAllUsersTry_def Inr sum.case fm [OF Inr] ct [OF Inr] ..
  qed
  then show ?thesis by (simp only: getAllUsers_def)
qed

lemma liveById_cond: "matchesWhere (liveById i) u \<longleftrightarrow> userId u = i \<and> \<not> isDeleted u"
  by (simp add: matchesWhere_def liveById_def userDoc_def)

lemma getUserById_hides_deleted:
  "getUserById (filter (\<lambda>x. \<not> isDeleted x) db) i flds = getUserById db i flds"
proof -
  have "findUnique (filter (\<lambda>x. \<not> isDeleted x) db) (liveById i) = findUnique db (liveById i)"
    unfolding findUnique_def by (rule find_live_matching) (simp add: liveById_cond)
  then have h: "findUnique (filter (\<lambda>x. \<not> isDeleted x) db)
        [(''id'', Equals (VStr i)), (''isDeleted'', Equals (VBool False))]
      = findUnique db [(''id'', Equals (VStr i)), (''isDeleted'', Equals (VBool False))]"
    by (simp only: liveById_def)
  show ?thesis
    by (simp only: getUserById_def getUserByIdTry_def h)
qed

lemma getUserById_deleted_not_found:
  assumes "\<And>x. x \<in> set db \<Longrightarrow> userId x = i \<Longrightarrow> isDeleted x"
  shows "\<not> success (getUserById db i flds) \<and> found (getUserById db i flds) = None \<and>
         (fieldSelections flds = Inr sel \<longrightarrow>
            getUserById db i flds = \<lparr>success = False, message = ''User not found'', found = None\<rparr>)"
proof -
  have "find (matchesWhere (liveById i)) db = None"
    using assms by (auto simp: find_None_iff liveById_cond)
  then have "findUnique db [(''id'', Equals (VStr i)), (''isDeleted'', Equals (VBool False))] = None"
    by (simp add: findUnique_def liveById_def)
  then show ?thesis
    by (auto simp: getUserById_def getUserByIdTry_def split: sum.splits)
qed

text \<open>
  Claim C3. For every page, limit, sort, order, search text and field list, and for the
  filters that the list handler builds from \<^verbatim>\<open>filter_*\<close> parameters, the result of
  getAllUsers, its records and its pagination total, is the result on the store without
  its soft-deleted records; so is the result of getUserById. For an identifier that only
  soft-deleted records carry getUserById fails and returns no record, with the message
  "User not found" when the field list is accepted. The engine compares a filter value
  with a field by typed equality: the string of a \<^verbatim>\<open>filter_isDeleted\<close> parameter equals
  no boolean.
\<close>

theorem soft_deleted_absent:
  assumes "filters params = filtersParam q"
  shows "getAllUsers jsonParse le (filter (\<lambda>x. \<not> isDeleted x) db) params
           = getAllUsers jsonParse le db params \<and>
         getUserById (filter (\<lambda>x. \<not> isDeleted x) db) i flds = getUserById db i flds \<and>
         ((\<forall>x \<in> set db. userId x = i \<longrightarrow> isDeleted x) \<longrightarrow>
            \<not> success (getUserById db i flds) \<and> found (getUserById db i flds) = None \<and>
            (fieldSelections flds = Inr sel \<longrightarrow>
               getUserById db i flds
                 = \<lparr>success = False, message = ''User not found'', found = None\<rparr>))"
proof (intro conjI impI)
  show "getAllUsers jsonParse le (filter (\<lambda>x. \<not> isDeleted x) db) params
          = getAllUsers jsonParse le db params"
    using assms by (rule string_filters_hide_deleted)
  show "getUserById (filter (\<lambda>x. \<not> isDeleted x) db) i flds = getUserById db i flds"
    by (rule getUserById_hides_deleted)
next
  assume h: "\<forall>x \<in> set db. userId x = i \<longrightarrow> isDeleted x"
  have d: "\<And>x. x \<in> set db \<Longrightarrow> userId x = i \<Longrightarrow> isDeleted x" using h by blast
  show "\<not> success (getUserById db i flds)"
    using getUserById_deleted_not_found [OF d, where flds = flds] by blast
  show "found (getUserById db i flds) = None"
    using getUserById_deleted_not_found [OF d, where flds = flds] by blast
  assume "fieldSelections flds = Inr sel"
  then show "getUserById db i flds
      = \<lparr>success = False, message = ''User not found'', found = None\<rparr>"
    using getUserById_deleted_not_found [OF d, where flds = flds and sel = sel] by blast
qed

text \<open>
  The theorem at a store with the live record of alice and the soft-deleted record of bob,
  listed with the parameter \<^verbatim>\<open>filter_isDeleted=true\<close>, and at the identifier of bob.
\<close>

theorem soft_deleted_absent_witness:
  "isDeleted bob \<and> userId bob = ''u2'' \<and>
   filters (noParams\<lparr>filters := filtersParam [(''filter_isDeleted'', QString ''true'')]\<rparr>)
     = filtersParam [(''filter_isDeleted'', QString ''true'')] \<and>
   filtersParam [(''filter_isDeleted'', QString ''true'')] = Some [(''isDeleted'', VStr ''true'')] \<and>
   getAllUsers jsonRead byCreatedAt [alice, bob]
       (noParams\<lparr>filters := filtersParam [(''filter_isDeleted'', QString ''true'')]\<rparr>)
     = getAllUsers jsonRead byCreatedAt [alice]
       (noParams\<lparr>filters := filtersParam [(''filter_isDeleted'', QString ''true'')]\<rparr>) \<and>
   getAllUsers jsonRead byCreatedAt [alice, bob]
       (noParams\<lparr>filters := filtersParam [(''filter_isDeleted'', QString ''true'')]\<rparr>)
     = \<lparr>success = True, message = ''Users retrieved successfully'', users = Some [],
        pagination = Some \<lparr>pgTotal = Num 0, pgPage = Num 1, pgLimit = Num 10,
                            totalPages = Num 0, hasMore = False\<rparr>\<rparr> \<and>
   getUserById [alice, bob] ''u2'' None
     = \<lparr>success = False, message = ''User not found'', found = None\<rparr>"
proof -
  define params where
    "params = noParams\<lparr>filters := filtersParam [(''filter_isDeleted'', QString ''true'')]\<rparr>"
  have f: "filtersParam [(''filter_isDeleted'', QString ''true'')] = Some [(''isDeleted'', VStr ''true'')]"
    by (simp add: filtersParam_def buildFilters_def filterStep_def startsWith_def
        replaceFirst_prefix setProp_def Let_def)
  have p: "filters params = filtersParam [(''filter_isDeleted'', QString ''true'')]"
    by (simp add: params_def)
  have live: "filter (\<lambda>x. \<not> isDeleted x) [alice, bob] = [alice]"
    by (simp add: alice_def bob_def)
  have only: "\<forall>x \<in> set [alice, bob]. userId x = ''u2'' \<longrightarrow> isDeleted x"
    by (simp add: alice_def bob_def)
  have sel: "fieldSelections None = Inr [(''id'', STrue)]"
    by (simp add: fieldSelections_def)
  have one: "getAllUsers jsonRead byCreatedAt [alice] params
     = \<lparr>success = True, message = ''Users retrieved successfully'', users = Some [],
        pagination = Some \<lparr>pgTotal = Num 0, pgPage = Num 1, pgLimit = Num 10,
                            totalPages = Num 0, hasMore = False\<rparr>\<rparr>"
    unfolding params_def f by (simp add: eval_defs Let_def)
  have b: "isDeleted bob \<and> userId bob = ''u2''" by (simp add: bob_def)
  show ?thesis
    using soft_deleted_absent [OF p, of jsonRead byCreatedAt "[alice, bob]" "''u2''" None
        "[(''id'', STrue)]"] only sel one b f p
    unfolding live params_def [symmetric] by simp
qed

section \<open>Properties of the sort specification\<close>

text \<open>
  Claim C7, as amended. An absent or empty \<^verbatim>\<open>sort\<close> gives \<^verbatim>\<open>{ createdAt: order }\<close>,
  and the order is \<^verbatim>\<open>desc\<close> when none is given. A non-empty value that does not start
  with an opening brace is a field name paired with the order, whether or not it is JSON
  text. A value that starts with an opening brace is handed to the JSON parser: what the
  parser returns is the sort specification, and when the parser rejects the value the
  operation returns the failure result with the message "Server error". The sort
  specification of the query getAllUsers builds is the one described.
\<close>

theorem sort_specification:
  "(srt = None \<or> srt = Some [] \<longrightarrow>
      orderByOf jsonParse srt ord = Inr (JObj [(''createdAt'', JStr (orderName ord))])) \<and>
   (s \<noteq> [] \<and> \<not> startsWith s ''{'' \<longrightarrow>
      orderByOf jsonParse (Some s) ord = Inr (JObj [(s, JStr (orderName ord))])) \<and>
   (startsWith s ''{'' \<and> jsonParse s = Some j \<longrightarrow> orderByOf jsonParse (Some s) ord = Inr j) \<and>
   (startsWith s ''{'' \<and> jsonParse s = None \<longrightarrow>
      orderByOf jsonParse (Some s) ord = Inl SyntaxError \<and>
      getAllUsers jsonParse le db (params\<lparr>sortParam := Some s\<rparr>)
        = \<lparr>success = False, message = ''Server error'', users = None, pagination = None\<rparr>) \<and>
   (findManyQuery jsonParse params = Inr qy \<longrightarrow>
      orderByOf jsonParse (sortParam params)
        (case orderParam params of None \<Rightarrow> desc | Some d \<Rightarrow> d) = Inr (orderByArg qy))"
proof (intro conjI impI)
  assume "srt = None \<or> srt = Some []"
  then show "orderByOf jsonParse srt ord = Inr (JObj [(''createdAt'', JStr (orderName ord))])"
    by (auto simp: orderByOf_def)
next
  assume "s \<noteq> [] \<and> \<not> startsWith s ''{''"
  then show "orderByOf jsonParse (Some s) ord = Inr (JObj [(s, JStr (orderName ord))])"
    by (simp add: orderByOf_def)
next
  assume "startsWith s ''{'' \<and> jsonParse s = Some j"
  then show "orderByOf jsonParse (Some s) ord = Inr j"
    by (auto simp: orderByOf_def startsWith_def)
next
  assume a: "startsWith s ''{'' \<and> jsonParse s = None"
  then have ne: "s \<noteq> []" by (auto simp: startsWith_def)
  show "orderByOf jsonParse (Some s) ord = Inl SyntaxError"
    using a ne by (simp add: orderByOf_def)
  then have "findManyQuery jsonParse (params\<lparr>sortParam := Some s\<rparr>) = Inl SyntaxError"
    using a ne by (simp add: findManyQuery_def orderByOf_def)
  then show "getAllUsers jsonParse le db (params\<lparr>sortParam := Some s\<rparr>)
        = \<lparr>success = False, message = ''Server error'', users = None, pagination = None\<rparr>"
    by (simp add: getAllUsers_def getAllUsersTry_def)
next
  assume "findManyQuery jsonParse params = Inr qy"
  then show "orderByOf jsonParse (sortParam params)
        (case orderParam params of None \<Rightarrow> desc | Some d \<Rightarrow> d) = Inr (orderByArg qy)"
    by (auto simp: findManyQuery_def Let_def split: sum.splits)
qed

text \<open>
  The theorem at an absent value, a field name, a JSON object and a value the parser
  rejects, and at the query built from no parameters.
\<close>

theorem sort_specification_witness:
  "orderByOf jsonRead None desc = Inr (JObj [(''createdAt'', JStr ''desc'')]) \<and>
   orderByOf jsonRead (Some ''firstName'') asc = Inr (JObj [(''firstName'', JStr ''asc'')]) \<and>
   orderByOf jsonRead (Some ''{\"lastName\":\"asc\"}'') desc = Inr (JObj [(''lastName'', JStr ''asc'')]) \<and>
   getAllUsers jsonRead byCreatedAt [alice] (noParams\<lparr>sortParam := Some ''{oops''\<rparr>)
     = \<lparr>success = False, message = ''Server error'', users = None, pagination = None\<rparr> \<and>
   findManyQuery jsonRead noParams
     = Inr \<lparr>whereArg = [(''isDeleted'', Equals (VBool False))], skipArg = Num 0, takeArg = Num 10,
            orderByArg = JObj [(''createdAt'', JStr ''desc'')], selectArg = [(''id'', STrue)]\<rparr>"
proof -
  have p1: "jsonRead ''{\"lastName\":\"asc\"}'' = Some (JObj [(''lastName'', JStr ''asc'')])" by code_simp
  have p2: "jsonRead ''{oops'' = None" by code_simp
  have q: "findManyQuery jsonRead noParams
     = Inr \<lparr>whereArg = [(''isDeleted'', Equals (VBool False))], skipArg = Num 0, takeArg = Num 10,
            orderByArg = JObj [(''createdAt'', JStr ''desc'')], selectArg = [(''id'', STrue)]\<rparr>"
    by (simp add: findManyQuery_def noParams_def orderByOf_def fieldSelections_def whereClause_def
        spread_def Let_def js_small)
  show ?thesis
    using sort_specification [where srt = None and jsonParse = jsonRead and ord = desc
        and params = noParams and s = "''firstName''"]
      sort_specification [where s = "''firstName''" and jsonParse = jsonRead and ord = asc
        and srt = None and params = noParams]
      sort_specification [where s = "''{\"lastName\":\"asc\"}''" and jsonParse = jsonRead and ord = desc
        and j = "JObj [(''lastName'', JStr ''asc'')]" and srt = None and params = noParams]
      sort_specification [where s = "''{oops''" and jsonParse = jsonRead and le = byCreatedAt
        and db = "[alice]" and params = noParams and srt = None]
      p1 p2 q
    by (simp add: startsWith_def)
qed

text \<open>
  Claim C7 as stated uses every value that parses as JSON verbatim and every other value
  as a field name. The text \<^verbatim>\<open>123\<close> parses as JSON and is used as a field name; the
  text of a lone opening brace does not parse and is not used as a field name.
\<close>

theorem json_sort_counterexample:
  "jsonRead ''123'' = Some (JNum ''123'') \<and>
   orderByOf jsonRead (Some ''123'') desc = Inr (JObj [(''123'', JStr ''desc'')]) \<and>
   jsonRead ''{'' = None \<and>
   orderByOf jsonRead (Some ''{'') desc = Inl SyntaxError"
proof -
  have 1: "jsonRead ''123'' = Some (JNum ''123'')" by code_simp
  have 2: "jsonRead ''{'' = None" by code_simp
  show ?thesis using 1 2 by (simp add: orderByOf_def startsWith_def)
qed

section \<open>Properties of the mutation and auth services\<close>

lemma email_cond: "matchesWhere [(''email'', Equals (VStr e))] u \<longleftrightarrow> email u = e"
  by (simp add: matchesWhere_def userDoc_def)

lemma findUnique_email: "findUnique db [(''email'', Equals (VStr e))] = find (\<lambda>u. email u = e) db"
proof -
  have "matchesWhere [(''email'', Equals (VStr e))] = (\<lambda>u. email u = e)"
    by (rule ext) (rule email_cond)
  then show ?thesis by (simp add: findUnique_def)
qed

lemma find_member: "u \<in> set db \<Longrightarrow> P u \<Longrightarrow> find P db \<noteq> None"
  by (auto simp: find_None_iff)

text \<open>
  Claim C2 says that the "Insufficient permissions" error of a failed permission check
  leaves the service and reaches the route handler, which answers 403. The code for the
  acting role \<^verbatim>\<open>driver\<close>: the check throws inside the service's own \<^verbatim>\<open>try\<close>, the
  service returns the failure result "Server error", and the handlers answer it like any
  other failure result, with 400 (create) and 404 (update, delete). The branch of the
  handlers that answers 403 is never reached from the service.
\<close>

theorem permission_error_swallowed:
  "requireAdminPermission (Some driver) = Inl (Error ''Insufficient permissions'') \<and>
   createUserAdmin env db body (Some driver)
     = (db, \<lparr>success = False, message = ''Server error'', user = None, token = None\<rparr>) \<and>
   createUserAdminHandler env db body (Some driver)
     = (db, \<lparr>statusCode = 400, resSuccess = False, resMessage = ''Server error'',
             resData = None, resToken = None\<rparr>) \<and>
   updateUserHandler env db ident upd (Some driver)
     = (db, \<lparr>statusCode = 404, resSuccess = False, resMessage = ''Server error'',
             resData = None, resToken = None\<rparr>) \<and>
   deleteUserHandler env db ident (Some driver)
     = (db, \<lparr>statusCode = 404, resSuccess = False, resMessage = ''Server error'',
             resData = None, resToken = None\<rparr>) \<and>
   statusCode (handlerCatch (Error ''Insufficient permissions'')) = 403"
  by (simp add: requireAdminPermission_def requireWritePermission_def requireDeletePermission_def
      checkRole_def checkPermission_def isRoleAllowed_def hasPermission_def
      createUserAdmin_def createUserAdminTry_def createUserAdminHandler_def
      createUserAdminRespond_def updateUser_def updateUserTry_def updateUserHandler_def
      updateUserRespond_def deleteUser_def deleteUserTry_def deleteUserHandler_def
      deleteUserRespond_def handlerCatch_def)

text \<open>
  Claim C4. When a record with the email of the payload exists, soft-deleted or not,
  register and createUserAdmin return the failure result "User already exists" with no
  user and no token, and leave the store as it was. The uniqueness check of
  createUserAdmin follows its permission check, which the acting role \<^verbatim>\<open>admin\<close> and no
  other passes.
\<close>

theorem duplicate_email_rejected:
  assumes "u \<in> set db" and "email u = newEmail d"
  shows "register env db d
           = (db, \<lparr>success = False, message = ''User already exists'', user = None, token = None\<rparr>) \<and>
         createUserAdmin env db d (Some admin)
           = (db, \<lparr>success = False, message = ''User already exists'', user = None, token = None\<rparr>)"
proof -
  have "find (\<lambda>x. email x = newEmail d) db \<noteq> None" using assms by (rule find_member)
  then obtain x where "findUnique db [(''email'', Equals (VStr (newEmail d)))] = Some x"
    by (auto simp: findUnique_email)
  then have "createSteps env db d
      = Inr (db, \<lparr>success = False, message = ''User already exists'', user = None, token = None\<rparr>)"
    by (simp add: createSteps_def)
  then show ?thesis
    by (simp add: register_def createUserAdmin_def createUserAdminTry_def
        requireAdminPermission_def checkRole_def isRoleAllowed_def)
qed

text \<open>
  The theorem at a store whose record with that email is soft-deleted.
\<close>

theorem duplicate_email_rejected_witness:
  "bob \<in> set [alice, bob] \<and> isDeleted bob \<and> email bob = newEmail bobAgain \<and>
   register demoEnv [alice, bob] bobAgain
     = ([alice, bob], \<lparr>success = False, message = ''User already exists'', user = None, token = None\<rparr>) \<and>
   createUserAdmin demoEnv [alice, bob] bobAgain (Some admin)
     = ([alice, bob], \<lparr>success = False, message = ''User already exists'', user = None, token = None\<rparr>)"
proof -
  have 1: "bob \<in> set [alice, bob]" by simp
  have 2: "email bob = newEmail bobAgain" by (simp add: bob_def bobAgain_def)
  have 3: "isDeleted bob" by (simp add: bob_def)
  show ?thesis using duplicate_email_rejected [OF 1 2, of demoEnv] 1 2 3 by simp
qed

text \<open>
  Claim C5. When a record has the email, a claimed role that differs from the stored one
  gives the role-mismatch message whatever the password is; an equal role with a password
  that does not match gives "Invalid credentials", the message also given when no record
  has the email; the two messages differ.
\<close>

theorem login_checks_role_first:
  "(find (\<lambda>x. email x = em) db = Some u \<and> roleName (role u) \<noteq> claimed \<longrightarrow>
      login env db em pw claimed
        = \<lparr>success = False, message = ''Access denied: Invalid role for this login'',
           user = None, token = None\<rparr>) \<and>
   (find (\<lambda>x. email x = em) db = Some u \<and> roleName (role u) = claimed \<and>
      \<not> bcryptCompare env pw (password u) \<longrightarrow>
      login env db em pw claimed
        = \<lparr>success = False, message = ''Invalid credentials'', user = None, token = None\<rparr>) \<and>
   (find (\<lambda>x. email x = em) db = None \<longrightarrow>
      login env db em pw claimed
        = \<lparr>success = False, message = ''Invalid credentials'', user = None, token = None\<rparr>) \<and>
   ''Access denied: Invalid role for this login'' \<noteq> ''Invalid credentials''"
  by (auto simp: login_def loginTry_def findUnique_email)

text \<open>
  The theorem at a wrong role with a wrong password, the right role with a wrong password,
  and an unknown email.
\<close>

theorem login_checks_role_first_witness:
  "login demoEnv [alice, bob] ''alice@x.com'' ''wrong'' ''driver''
     = \<lparr>success = False, message = ''Access denied: Invalid role for this login'',
        user = None, token = None\<rparr> \<and>
   login demoEnv [alice, bob] ''alice@x.com'' ''wrong'' ''passenger''
     = \<lparr>success = False, message = ''Invalid credentials'', user = None, token = None\<rparr> \<and>
   login demoEnv [alice, bob] ''nobody@x.com'' ''pw123456'' ''passenger''
     = \<lparr>success = False, message = ''Invalid credentials'', user = None, token = None\<rparr>"
proof -
  have a: "find (\<lambda>x. email x = ''alice@x.com'') [alice, bob] = Some alice"
    by (simp add: alice_def)
  have n: "find (\<lambda>x. email x = ''nobody@x.com'') [alice, bob] = None"
    by (simp add: alice_def bob_def)
  have r: "roleName (role alice) = ''passenger''" by (simp add: alice_def)
  have c: "\<not> bcryptCompare demoEnv ''wrong'' (password alice)" by (simp add: demoEnv_def alice_def)
  show ?thesis
    using login_checks_role_first [of "''alice@x.com''" "[alice, bob]" alice "''driver''" demoEnv "''wrong''"]
      login_checks_role_first [of "''alice@x.com''" "[alice, bob]" alice "''passenger''" demoEnv "''wrong''"]
      login_checks_role_first [of "''nobody@x.com''" "[alice, bob]" alice "''passenger''" demoEnv "''pw123456''"]
      a n r c
    by simp
qed

lemma login_success_example:
  "login demoEnv [alice, bob] ''alice@x.com'' ''pw123456'' ''passenger''
     = \<lparr>success = True, message = ''Login successful'',
        user = Some [(''id'', VStr ''u1''), (''firstName'', VStr ''Alice''), (''lastName'', VStr ''Reyes''),
                     (''middleName'', VNull), (''email'', VStr ''alice@x.com''),
                     (''role'', VStr ''passenger''), (''createdAt'', VDate 1)],
        token = Some ''jwt:u1''\<rparr>"
  by (simp add: login_def loginTry_def findUnique_email alice_def demoEnv_def loginSummary_def
      userDoc_def optStr_def metadataDoc_def)


end
